theory Spec2Isabelle
  imports Main
begin

section \<open>bed2gtf: a shallow embedding of \<^verbatim>\<open>src/supp/bed2gtf.py\<close>\<close>

text \<open>
  Python integers are unbounded, so every coordinate is an \<open>int\<close>. A raised exception
  is a value of the type \<open>error\<close>; a function that can raise returns \<open>error + 'a\<close>,
  with \<open>Inl\<close> for the exception. The two \<open>ValueError\<close>s of \<open>move_pos\<close> keep the
  numbers that their messages are formatted from.
\<close>

datatype error =
    AssertionError
  | IndexError
  | KeyError
  | TypeError
  | ValueError_cant_find int
  | ValueError_cant_move int int

text \<open>
  List indexing \<open>xs[i]\<close> as Python does it: an index below zero counts from the end,
  and an index outside the list raises \<open>IndexError\<close>.
\<close>

definition py_get :: "'a list \<Rightarrow> int \<Rightarrow> error + 'a" where
  "py_get xs i =
     (if 0 \<le> i \<and> i < int (length xs) then Inr (xs ! nat i)
      else if i < 0 \<and> - int (length xs) \<le> i then Inr (xs ! nat (int (length xs) + i))
      else Inl IndexError)"

subsection \<open>Frames of the exons\<close>

definition check_exon_frame :: "int \<Rightarrow> int \<Rightarrow> int \<Rightarrow> int \<Rightarrow> int \<times> int" where
  "check_exon_frame exonStart exonEnd cdsStart cdsEnd =
     (let start = max exonStart cdsStart;
          end = min exonEnd cdsEnd
      in (start, end))"

text \<open>
  The body of the \<open>for exon in range(start, end, step)\<close> loop of \<open>exon_frames\<close>, run over
  the list of the indices that the range yields. The loop state is the pair of the
  local variables \<open>frames\<close> and \<open>cds\<close>. \<open>frames\<close> has \<open>len(exonStart)\<close> entries and
  \<open>exon\<close> is below that, so the assignment \<open>frames[exon] = ...\<close> is in range.
\<close>

fun exon_frames_loop ::
  "int \<Rightarrow> int \<Rightarrow> int list \<Rightarrow> int list \<Rightarrow> nat list \<Rightarrow> int list \<times> int \<Rightarrow> error + (int list \<times> int)"
where
  "exon_frames_loop cdsStart cdsEnd exonStart exonEnd [] (frames, cds) = Inr (frames, cds)"
| "exon_frames_loop cdsStart cdsEnd exonStart exonEnd (exon # rest) (frames, cds) =
     (case py_get exonStart (int exon) of
        Inl err \<Rightarrow> Inl err
      | Inr s \<Rightarrow>
         (case py_get exonEnd (int exon) of
            Inl err \<Rightarrow> Inl err
          | Inr e \<Rightarrow>
             (case check_exon_frame s e cdsStart cdsEnd of
                (cdsExonStart, cdsExonEnd) \<Rightarrow>
                  if cdsExonStart < cdsExonEnd
                  then exon_frames_loop cdsStart cdsEnd exonStart exonEnd rest
                         (frames[exon := cds mod 3], cds + (cdsExonEnd - cdsExonStart))
                  else exon_frames_loop cdsStart cdsEnd exonStart exonEnd rest
                         (frames[exon := - 1], cds))))"

text \<open>
  \<open>range(start, end, step)\<close>: ascending from \<open>0\<close> on the strand \<open>"+"\<close>, descending from
  \<open>len(exonStart) - 1\<close> to \<open>0\<close> on any other strand.
\<close>

definition exon_range :: "string \<Rightarrow> nat \<Rightarrow> nat list" where
  "exon_range strand n = (if strand = ''+'' then [0..<n] else rev [0..<n])"

text \<open>The loop from its initial state; the result keeps the final value of \<open>cds\<close>.\<close>

definition exon_frames_state ::
  "int \<Rightarrow> int \<Rightarrow> int list \<Rightarrow> int list \<Rightarrow> string \<Rightarrow> error + (int list \<times> int)"
where
  "exon_frames_state cdsStart cdsEnd exonStart exonEnd strand =
     exon_frames_loop cdsStart cdsEnd exonStart exonEnd
       (exon_range strand (length exonStart))
       (replicate (length exonStart) 0, 0)"

definition exon_frames ::
  "int \<Rightarrow> int \<Rightarrow> int list \<Rightarrow> int list \<Rightarrow> string \<Rightarrow> error + int list"
where
  "exon_frames cdsStart cdsEnd exonStart exonEnd strand =
     (case exon_frames_state cdsStart cdsEnd exonStart exonEnd strand of
        Inl err \<Rightarrow> Inl err
      | Inr (frames, cds) \<Rightarrow> Inr frames)"

subsection \<open>Codon descriptors\<close>

text \<open>
  The codon descriptor is the list \<open>[0]*6\<close> whose six slots are only ever read and
  written by a constant index: \<open>cod0 .. cod5\<close> are \<open>codon[0] .. codon[5]\<close>.
\<close>

record codon_descr =
  cod0 :: int
  cod1 :: int
  cod2 :: int
  cod3 :: int
  cod4 :: int
  cod5 :: int

definition no_codon :: codon_descr where
  "no_codon = \<lparr>cod0 = 0, cod1 = 0, cod2 = 0, cod3 = 0, cod4 = 0, cod5 = 0\<rparr>"

text \<open>
  The exon search that opens \<open>find_first_codon\<close> and \<open>find_last_codon\<close>, over the
  indices of its range. Both branches of the loop body leave the loop: \<open>break\<close> with
  \<open>exon_index = fr\<close> (here \<open>Inr fr\<close>) or \<open>return\<close> of the zero descriptor (here \<open>Inl\<close>).
  A range that is empty leaves \<open>exon_index = 0\<close>. The index \<open>fr\<close> comes from a range
  below \<open>len(frames)\<close>, so \<open>frames[fr]\<close> is in range.
\<close>

fun codon_scan :: "int list \<Rightarrow> nat list \<Rightarrow> codon_descr + nat" where
  "codon_scan frames [] = Inr 0"
| "codon_scan frames (fr # rest) =
     (if frames ! fr \<ge> 0 then Inr fr else Inl no_codon)"

definition find_first_codon ::
  "int list \<Rightarrow> string \<Rightarrow> int \<Rightarrow> int \<Rightarrow> int list \<Rightarrow> int list \<Rightarrow> error + codon_descr"
where
  "find_first_codon frames strand cdsStart cdsEnd exonStart exonEnd =
     (case codon_scan frames [0..<length frames - 1] of
        Inl codon \<Rightarrow> Inr codon
      | Inr exon_index \<Rightarrow>
         (case py_get exonStart (int exon_index) of
            Inl err \<Rightarrow> Inl err
          | Inr s \<Rightarrow>
         (case py_get exonEnd (int exon_index) of
            Inl err \<Rightarrow> Inl err
          | Inr e \<Rightarrow>
         (case py_get frames (int exon_index) of
            Inl err \<Rightarrow> Inl err
          | Inr f \<Rightarrow>
         (case check_exon_frame s e cdsStart cdsEnd of
            (cdsExonStart, cdsExonEnd) \<Rightarrow>
              let frame = (if strand = ''+'' then f
                           else (f + (cdsExonEnd - cdsExonStart)) mod 3)
              in if frame \<noteq> 0 then Inr no_codon
                 else
                   let codon = no_codon
                         \<lparr>cod0 := cdsStart,
                          cod1 := cdsStart + min (cdsEnd - cdsStart) 3,
                          cod4 := int exon_index\<rparr>
                   in if cod1 codon - cod0 codon < 3
                      then
                        let codon = codon
                              \<lparr>cod5 := int exon_index,
                               cod4 := int exon_index + 1,
                               cod2 := cdsStart\<rparr>;
                            needed = 3 - (cod1 codon - cod0 codon)
                        in if cdsEnd - cdsStart < needed then Inr no_codon
                           else Inr (codon\<lparr>cod3 := cod2 codon + needed\<rparr>)
                      else Inr codon)))))"

definition find_last_codon ::
  "int list \<Rightarrow> string \<Rightarrow> int \<Rightarrow> int \<Rightarrow> int list \<Rightarrow> int list \<Rightarrow> error + codon_descr"
where
  "find_last_codon frames strand cdsStart cdsEnd exonStart exonEnd =
     (case codon_scan frames (rev [0..<length frames]) of
        Inl codon \<Rightarrow> Inr codon
      | Inr exon_index \<Rightarrow>
         (case py_get exonStart (int exon_index) of
            Inl err \<Rightarrow> Inl err
          | Inr s \<Rightarrow>
         (case py_get exonEnd (int exon_index) of
            Inl err \<Rightarrow> Inl err
          | Inr e \<Rightarrow>
         (case py_get frames (int exon_index) of
            Inl err \<Rightarrow> Inl err
          | Inr f \<Rightarrow>
         (case check_exon_frame s e cdsStart cdsEnd of
            (cdsExonStart, cdsExonEnd) \<Rightarrow>
              let frame = (if strand = ''-'' then f
                           else (f + (cdsExonEnd - cdsExonStart)) mod 3)
              in if frame \<noteq> 0 then Inr no_codon
                 else
                   let codon = no_codon
                         \<lparr>cod0 := max cdsStart (cdsEnd - 3),
                          cod1 := cdsEnd,
                          cod4 := int exon_index\<rparr>
                   in if cod1 codon - cod0 codon < 3
                      then
                        let codon = codon
                              \<lparr>cod5 := int exon_index,
                               cod4 := int exon_index - 1,
                               cod2 := cdsStart\<rparr>;
                            needed = 3 - (cod1 codon - cod0 codon)
                        in if cdsEnd - cdsStart < needed then Inr no_codon
                           else Inr (codon\<lparr>cod3 := cod2 codon + needed\<rparr>)
                      else Inr codon)))))"

definition codon_complete :: "codon_descr \<Rightarrow> bool" where
  "codon_complete codon \<longleftrightarrow> (cod1 codon - cod0 codon) + (cod3 codon - cod2 codon) = 3"

subsection \<open>Walking a position along the exons\<close>

text \<open>
  \<open>exonStarts[exon] <= pos <= exonEnds[exon]\<close> is a chained comparison: when the first
  comparison is false, \<open>exonEnds[exon]\<close> is not read.
\<close>

definition in_exon :: "int \<Rightarrow> int \<Rightarrow> int list \<Rightarrow> int list \<Rightarrow> error + bool" where
  "in_exon exon pos exonStarts exonEnds =
     (case py_get exonStarts exon of
        Inl err \<Rightarrow> Inl err
      | Inr s \<Rightarrow>
          if s \<le> pos
          then (case py_get exonEnds exon of
                  Inl err \<Rightarrow> Inl err
                | Inr e \<Rightarrow> Inr (pos \<le> e))
          else Inr False)"

text \<open>
  The search \<open>for i in range(exonCount)\<close> for the exon that holds \<open>pos\<close>; \<open>None\<close> when
  the range ends without a \<open>break\<close>.
\<close>

fun find_exon :: "int \<Rightarrow> int list \<Rightarrow> int list \<Rightarrow> nat list \<Rightarrow> error + int option" where
  "find_exon pos exonStart exonEnd [] = Inr None"
| "find_exon pos exonStart exonEnd (i # rest) =
     (case in_exon (int i) pos exonStart exonEnd of
        Inl err \<Rightarrow> Inl err
      | Inr b \<Rightarrow> if b then Inr (Some (int i)) else find_exon pos exonStart exonEnd rest)"

text \<open>
  One pass through the body of the \<open>while\<close> loop of \<open>move_pos\<close>, on the loop variables
  \<open>(exon, pos, steps)\<close>.
\<close>

definition move_step ::
  "int \<Rightarrow> int list \<Rightarrow> int list \<Rightarrow> int \<Rightarrow> int \<times> int \<times> int \<Rightarrow> error + (int \<times> int \<times> int)"
where
  "move_step exonCount exonStart exonEnd direction w =
     (case w of (exon, pos, steps) \<Rightarrow>
       (case in_exon exon (pos + direction) exonStart exonEnd of
          Inl err \<Rightarrow> Inl err
        | Inr b \<Rightarrow>
            if b then Inr (exon, pos + direction, steps - 1)
            else if direction \<ge> 0 then
              (if exon + 1 < exonCount
               then (case py_get exonStart (exon + 1) of
                       Inl err \<Rightarrow> Inl err
                     | Inr s \<Rightarrow> Inr (exon + 1, s, steps))
               else Inr (exon + 1, pos, steps))
            else
              (if exon - 1 \<ge> 0
               then (case py_get exonEnd (exon - 1) of
                       Inl err \<Rightarrow> Inl err
                     | Inr e \<Rightarrow> Inr (exon - 1, e - 1, steps - 1))
               else Inr (exon - 1, pos, steps))))"

text \<open>A measure that every pass of the loop decreases: the steps left, then the exons left.\<close>

definition walk_measure :: "int \<Rightarrow> int \<Rightarrow> int \<times> int \<times> int \<Rightarrow> nat \<times> nat" where
  "walk_measure exonCount direction w =
     (case w of (exon, pos, steps) \<Rightarrow>
        (nat steps, if direction \<ge> 0 then nat (exonCount - exon) else nat (exon + 1)))"

function move_loop ::
  "int \<Rightarrow> int list \<Rightarrow> int list \<Rightarrow> int \<Rightarrow> int \<times> int \<times> int \<Rightarrow> error + (int \<times> int \<times> int)"
where
  "move_loop exonCount exonStart exonEnd direction (exon, pos, steps) =
     (if 0 \<le> exon \<and> exon < exonCount \<and> steps > 0
      then (case move_step exonCount exonStart exonEnd direction (exon, pos, steps) of
              Inl err \<Rightarrow> Inl err
            | Inr w \<Rightarrow> move_loop exonCount exonStart exonEnd direction w)
      else Inr (exon, pos, steps))"
  by pat_completeness auto
termination
  by (relation "inv_image (less_than <*lex*> less_than)
                  (\<lambda>(exonCount, exonStart, exonEnd, direction, w). walk_measure exonCount direction w)")
     (auto simp: move_step_def walk_measure_def split: sum.splits if_splits)

declare move_loop.simps [simp del]

definition move_pos ::
  "int \<Rightarrow> int \<Rightarrow> int \<Rightarrow> int list \<Rightarrow> int list \<Rightarrow> int \<Rightarrow> int \<Rightarrow> error + int"
where
  "move_pos txStart txEnd exonCount exonStart exonEnd pos dist =
     (let orig_pos = pos in
      if \<not> (txStart \<le> pos \<and> pos \<le> txEnd) then Inl AssertionError
      else
        (case find_exon pos exonStart exonEnd [0..<nat exonCount] of
           Inl err \<Rightarrow> Inl err
         | Inr None \<Rightarrow> Inl (ValueError_cant_find pos)
         | Inr (Some exon) \<Rightarrow>
             let steps = \<bar>dist\<bar>;
                 direction = (if dist \<ge> 0 then 1 else - 1)
             in (case move_loop exonCount exonStart exonEnd direction (exon, pos, steps) of
                   Inl err \<Rightarrow> Inl err
                 | Inr (exon', pos', steps') \<Rightarrow>
                     if steps' > 0 then Inl (ValueError_cant_move orig_pos dist)
                     else Inr pos')))"

subsection \<open>GTF lines\<close>

text \<open>
  A line of the output is kept as its nine tab-separated columns, in the order in which
  the source appends them; the numbers of a line are kept as integers, not as their
  decimal text. The last column is the list of the attributes that the source appends.
\<close>

datatype attribute =
    Gene_id string
  | Transcript_id string
  | Exon_number int
  | Exon_id string int

record gtf_line =
  seqname :: string
  source_col :: string
  feature :: string
  start_col :: int
  end_col :: int
  score_col :: string
  strand_col :: string
  phase_col :: string
  attributes :: "attribute list"

text \<open>
  The output file is the list of the lines written so far. A function that writes
  returns \<open>Inr\<close> of the file after its writes, or \<open>Inl\<close> of the exception together
  with the file as it stands when the exception is raised.
\<close>

type_synonym gtf_file = "gtf_line list"

text \<open>
  The text \<open>gtf_line\<close> that \<open>build_gene_line\<close> puts together before it writes it.
\<close>

definition gene_line ::
  "string \<Rightarrow> string \<Rightarrow> string \<Rightarrow> string \<Rightarrow> string \<Rightarrow> int \<Rightarrow> int \<Rightarrow> gtf_line"
where
  "gene_line source geneName chrom strand type start end =
     \<lparr>seqname = chrom, source_col = source, feature = type,
      start_col = start + 1, end_col = end, score_col = ''.'',
      strand_col = strand, phase_col = ''.'',
      attributes = [Gene_id geneName]\<rparr>"

definition build_gene_line ::
  "string \<Rightarrow> string \<Rightarrow> string \<Rightarrow> string \<Rightarrow> string \<Rightarrow> int \<Rightarrow> int \<Rightarrow> gtf_file
     \<Rightarrow> (error \<times> gtf_file) + gtf_file"
where
  "build_gene_line source geneName chrom strand type start end file =
     (if \<not> start \<le> end then Inl (AssertionError, file)
      else Inr (file @ [gene_line source geneName chrom strand type start end]))"

text \<open>The conversion of a frame to the phase column, line 199 of the source.\<close>

definition frame_to_phase :: "int \<Rightarrow> string" where
  "frame_to_phase frame =
     (if frame < 0 then ''.'' else if frame = 0 then ''0'' else if frame = 1 then ''2'' else ''1'')"

text \<open>
  The text \<open>gtf_line\<close> that \<open>build_gtf_line\<close> puts together before it writes it.
\<close>

definition feature_line ::
  "string \<Rightarrow> string \<Rightarrow> string \<Rightarrow> string \<Rightarrow> string \<Rightarrow> string \<Rightarrow> int \<Rightarrow> int \<Rightarrow> int \<Rightarrow> int
     \<Rightarrow> int \<Rightarrow> gtf_line"
where
  "feature_line source name chrom strand geneName type_g start end exon frame exonCount =
     (let phase = frame_to_phase frame
      in \<lparr>seqname = chrom, source_col = source, feature = type_g,
          start_col = start + 1, end_col = end, score_col = ''.'',
          strand_col = strand, phase_col = phase,
          attributes =
            [Gene_id geneName, Transcript_id name] @
            (if exon \<ge> 0
             then (if strand = ''-''
                   then [Exon_number (exonCount - exon), Exon_id name (exonCount - exon)]
                   else [Exon_number (exon + 1), Exon_id name (exon + 1)])
             else [])\<rparr>)"

definition build_gtf_line ::
  "string \<Rightarrow> string \<Rightarrow> string \<Rightarrow> string \<Rightarrow> string \<Rightarrow> string \<Rightarrow> int \<Rightarrow> int \<Rightarrow> int \<Rightarrow> int
     \<Rightarrow> int \<Rightarrow> gtf_file \<Rightarrow> (error \<times> gtf_file) + gtf_file"
where
  "build_gtf_line source name chrom strand geneName type_g start end exon frame exonCount file =
     (if \<not> start \<le> end then Inl (AssertionError, file)
      else Inr (file @
        [feature_line source name chrom strand geneName type_g start end exon frame exonCount]))"

definition write_features ::
  "int \<Rightarrow> string \<Rightarrow> string \<Rightarrow> string \<Rightarrow> string \<Rightarrow> string \<Rightarrow> int \<Rightarrow> int \<Rightarrow> int \<Rightarrow> int \<Rightarrow> int
     \<Rightarrow> int list \<Rightarrow> int list \<Rightarrow> int \<Rightarrow> gtf_file \<Rightarrow> (error \<times> gtf_file) + gtf_file"
where
  "write_features i source name chrom strand geneName firstUtrEnd cdsStart cdsEnd lastUtrStart
       frame exonStart exonEnd exonCount file =
     (case py_get exonStart i of
        Inl err \<Rightarrow> Inl (err, file)
      | Inr exonStart_i \<Rightarrow>
     (case py_get exonEnd i of
        Inl err \<Rightarrow> Inl (err, file)
      | Inr exonEnd_i \<Rightarrow>
     (case (if exonStart_i < firstUtrEnd
            then build_gtf_line source name chrom strand geneName
                   (if strand = ''+'' then ''5UTR'' else ''3UTR'')
                   exonStart_i (min exonEnd_i firstUtrEnd) i (- 1) exonCount file
            else Inr file) of
        Inl raised \<Rightarrow> Inl raised
      | Inr file1 \<Rightarrow>
     (case (if cdsStart < exonEnd_i \<and> cdsEnd > exonStart_i
            then build_gtf_line source name chrom strand geneName ''CDS''
                   (max exonStart_i cdsStart) (min exonEnd_i cdsEnd) i frame exonCount file1
            else Inr file1) of
        Inl raised \<Rightarrow> Inl raised
      | Inr file2 \<Rightarrow>
          if exonEnd_i > lastUtrStart
          then build_gtf_line source name chrom strand geneName
                 (if strand = ''+'' then ''3UTR'' else ''5UTR'')
                 (max lastUtrStart exonStart_i) exonEnd_i i (- 1) exonCount file2
          else Inr file2))))"

definition write_codon ::
  "string \<Rightarrow> string \<Rightarrow> string \<Rightarrow> string \<Rightarrow> string \<Rightarrow> string \<Rightarrow> codon_descr \<Rightarrow> int
     \<Rightarrow> gtf_file \<Rightarrow> (error \<times> gtf_file) + gtf_file"
where
  "write_codon source name chrom strand geneName type_g codon exonCount file =
     (case build_gtf_line source name chrom strand geneName type_g
             (cod0 codon) (cod1 codon) (cod4 codon) 0 exonCount file of
        Inl raised \<Rightarrow> Inl raised
      | Inr file1 \<Rightarrow>
          if cod2 codon < cod3 codon
          then build_gtf_line source name chrom strand geneName type_g
                 (cod2 codon) (cod1 codon) (cod5 codon) (cod1 codon - cod0 codon) exonCount file1
          else Inr file1)"

subsection \<open>One record\<close>

text \<open>
  \<open>run\<close> is modelled from the fields of the line, after the split of the line at its tabs and
  the calls of \<open>int\<close>: the numeric fields are given as integers. The two list fields
  are given twice: as the text of the field, and as the integers
  \<open>list(map(int, text.split(',')[:-1]))\<close> that lines 271 and 272 compute from it. In the
  source the variable \<open>exonEnd\<close> first holds the eleventh field (the block sizes) and
  \<open>exonStart\<close> the twelfth (the block starts, relative to \<open>txStart\<close>).
\<close>

record bed_fields =
  f_chrom :: string
  f_txStart :: int
  f_txEnd :: int
  f_name :: string
  f_strand :: string
  f_cdsStart :: int
  f_cdsEnd :: int
  f_exonCount :: int
  f_exonEnd_text :: string
  f_exonStart_text :: string
  f_exonEnd_ints :: "int list"
  f_exonStart_ints :: "int list"

text \<open>
  Line 272, \<open>[exonStart[i] + x for i, x in enumerate(sizes)]\<close>, from the index \<open>i\<close> on.
\<close>

fun exon_ends :: "int list \<Rightarrow> nat \<Rightarrow> int list \<Rightarrow> error + int list" where
  "exon_ends exonStart i [] = Inr []"
| "exon_ends exonStart i (x # sizes) =
     (case py_get exonStart (int i) of
        Inl err \<Rightarrow> Inl err
      | Inr s \<Rightarrow>
          (case exon_ends exonStart (Suc i) sizes of
             Inl err \<Rightarrow> Inl err
           | Inr ends \<Rightarrow> Inr ((s + x) # ends)))"

text \<open>
  When \<open>exonCount\<close> is \<open>0\<close>, lines 271 and 272 are skipped and \<open>exonStart\<close> and
  \<open>exonEnd\<close> stay the texts of their fields. Then line 275 or line 277 raises, before
  anything is written: for an empty \<open>exonStart\<close> text \<open>exon_frames\<close> returns \<open>[]\<close> and
  \<open>exonStart[0]\<close> in \<open>find_first_codon\<close> raises \<open>IndexError\<close>; otherwise the first pass
  of the loop of \<open>exon_frames\<close> reads \<open>exonEnd[exon]\<close>, which raises \<open>IndexError\<close> when
  the \<open>exonEnd\<close> text is too short, and then compares a \<open>str\<close> with an \<open>int\<close> in
  \<open>check_exon_frame\<close>, which raises \<open>TypeError\<close>.
\<close>

definition text_lists_error :: "string \<Rightarrow> string \<Rightarrow> string \<Rightarrow> error" where
  "text_lists_error strand exonStart_text exonEnd_text =
     (if exonStart_text = [] then IndexError
      else if (if strand = ''+'' then 0 else length exonStart_text - 1) < length exonEnd_text
      then TypeError
      else IndexError)"

text \<open>Lines 270 to 272: the absolute exon bounds.\<close>

definition exon_lists :: "bed_fields \<Rightarrow> error + (int list \<times> int list)" where
  "exon_lists r =
     (if f_exonCount r \<noteq> 0
      then
        let exonStart = map (\<lambda>x. f_txStart r + x) (f_exonStart_ints r)
        in (case exon_ends exonStart 0 (f_exonEnd_ints r) of
              Inl err \<Rightarrow> Inl err
            | Inr exonEnd \<Rightarrow> Inr (exonStart, exonEnd))
      else Inl (text_lists_error (f_strand r) (f_exonStart_text r) (f_exonEnd_text r)))"

text \<open>Lines 281 to 287: the bounds of the UTRs are kept, then the CDS is trimmed.\<close>

definition trim_cds ::
  "string \<Rightarrow> int \<Rightarrow> int \<Rightarrow> int \<Rightarrow> int list \<Rightarrow> int list \<Rightarrow> int \<Rightarrow> int
     \<Rightarrow> codon_descr \<Rightarrow> codon_descr \<Rightarrow> error + (int \<times> int \<times> int \<times> int)"
where
  "trim_cds strand txStart txEnd exonCount exonStart exonEnd cdsStart cdsEnd
       first_codon last_codon =
     (let first_utr_end = cdsStart;
          last_utr_start = cdsEnd
      in (case (if strand = ''+'' \<and> codon_complete last_codon
                then move_pos txStart txEnd exonCount exonStart exonEnd last_utr_start (- 3)
                else Inr cdsEnd) of
            Inl err \<Rightarrow> Inl err
          | Inr cdsEnd' \<Rightarrow>
              (case (if strand = ''-'' \<and> codon_complete first_codon
                     then move_pos txStart txEnd exonCount exonStart exonEnd first_utr_end 3
                     else Inr cdsStart) of
                 Inl err \<Rightarrow> Inl err
               | Inr cdsStart' \<Rightarrow> Inr (first_utr_end, last_utr_start, cdsStart', cdsEnd'))))"

text \<open>
  The registry \<open>GENES\<close> and the output file are the state that \<open>run\<close> changes.
\<close>

record state =
  GENES :: "string \<rightharpoonup> bool"
  gtf :: gtf_file

text \<open>Lines 290 to 292: the gene line, once for a gene name.\<close>

definition emit_gene ::
  "string \<Rightarrow> string \<Rightarrow> string \<Rightarrow> string \<Rightarrow> int \<Rightarrow> int \<Rightarrow> state \<Rightarrow> (error \<times> state) + state"
where
  "emit_gene source geneName chrom strand txStart txEnd st =
     (if geneName \<notin> dom (GENES st)
      then (case build_gene_line source geneName chrom strand ''gene'' txStart txEnd (gtf st) of
              Inl (err, file) \<Rightarrow> Inl (err, st\<lparr>gtf := file\<rparr>)
            | Inr file \<Rightarrow> Inr (st\<lparr>gtf := file, GENES := (GENES st)(geneName \<mapsto> True)\<rparr>))
      else Inr st)"

text \<open>Lines 296 to 299: the loop \<open>for x in range(exonCount)\<close>, over its indices.\<close>

fun emit_exons ::
  "string \<Rightarrow> string \<Rightarrow> string \<Rightarrow> string \<Rightarrow> string \<Rightarrow> int \<Rightarrow> int \<Rightarrow> int \<Rightarrow> int \<Rightarrow> int list
     \<Rightarrow> int list \<Rightarrow> int list \<Rightarrow> int \<Rightarrow> nat list \<Rightarrow> gtf_file \<Rightarrow> (error \<times> gtf_file) + gtf_file"
where
  "emit_exons source name chrom strand geneName first_utr_end cdsStart cdsEnd last_utr_start
       frames exonStart exonEnd exonCount [] file = Inr file"
| "emit_exons source name chrom strand geneName first_utr_end cdsStart cdsEnd last_utr_start
       frames exonStart exonEnd exonCount (x # rest) file =
     (case py_get exonStart (int x) of
        Inl err \<Rightarrow> Inl (err, file)
      | Inr s \<Rightarrow>
     (case py_get exonEnd (int x) of
        Inl err \<Rightarrow> Inl (err, file)
      | Inr e \<Rightarrow>
     (case build_gtf_line source name chrom strand geneName ''exon'' s e (int x) (- 1)
             exonCount file of
        Inl raised \<Rightarrow> Inl raised
      | Inr file1 \<Rightarrow>
          if cdsStart < cdsEnd
          then (case py_get frames (int x) of
                  Inl err \<Rightarrow> Inl (err, file1)
                | Inr fr \<Rightarrow>
                    (case write_features (int x) source name chrom strand geneName first_utr_end
                            cdsStart cdsEnd last_utr_start fr exonStart exonEnd exonCount file1 of
                       Inl raised \<Rightarrow> Inl raised
                     | Inr file2 \<Rightarrow>
                         emit_exons source name chrom strand geneName first_utr_end cdsStart
                           cdsEnd last_utr_start frames exonStart exonEnd exonCount rest file2))
          else emit_exons source name chrom strand geneName first_utr_end cdsStart cdsEnd
                 last_utr_start frames exonStart exonEnd exonCount rest file1)))"

text \<open>Lines 301 to 310: the codon lines.\<close>

definition emit_codons ::
  "string \<Rightarrow> string \<Rightarrow> string \<Rightarrow> string \<Rightarrow> string \<Rightarrow> codon_descr \<Rightarrow> codon_descr \<Rightarrow> int
     \<Rightarrow> gtf_file \<Rightarrow> (error \<times> gtf_file) + gtf_file"
where
  "emit_codons source name chrom strand geneName first_codon last_codon exonCount file =
     (if strand \<noteq> ''-''
      then
        (case (if codon_complete first_codon
               then write_codon source name chrom strand geneName ''start_codon'' first_codon
                      exonCount file
               else Inr file) of
           Inl raised \<Rightarrow> Inl raised
         | Inr file1 \<Rightarrow>
             if codon_complete last_codon
             then write_codon source name chrom strand geneName ''stop_codon'' last_codon
                    exonCount file1
             else Inr file1)
      else
        (case (if codon_complete last_codon
               then write_codon source name chrom strand geneName ''start_codon'' last_codon
                      exonCount file
               else Inr file) of
           Inl raised \<Rightarrow> Inl raised
         | Inr file1 \<Rightarrow>
             if codon_complete first_codon
             then write_codon source name chrom strand geneName ''stop_codon'' first_codon
                    exonCount file1
             else Inr file1))"

text \<open>Lines 294 to 310: everything that \<open>run\<close> writes after the gene line.\<close>

definition emit_transcript ::
  "string \<Rightarrow> string \<Rightarrow> string \<Rightarrow> string \<Rightarrow> string \<Rightarrow> int \<Rightarrow> int \<Rightarrow> int \<Rightarrow> int \<Rightarrow> int \<Rightarrow> int
     \<Rightarrow> int list \<Rightarrow> int list \<Rightarrow> int list \<Rightarrow> int \<Rightarrow> codon_descr \<Rightarrow> codon_descr
     \<Rightarrow> gtf_file \<Rightarrow> (error \<times> gtf_file) + gtf_file"
where
  "emit_transcript source name chrom strand geneName txStart txEnd first_utr_end cdsStart cdsEnd
       last_utr_start frames exonStart exonEnd exonCount first_codon last_codon file =
     (case build_gtf_line source name chrom strand geneName ''transcript'' txStart txEnd
             (- 1) (- 1) exonCount file of
        Inl raised \<Rightarrow> Inl raised
      | Inr file1 \<Rightarrow>
          (case emit_exons source name chrom strand geneName first_utr_end cdsStart cdsEnd
                  last_utr_start frames exonStart exonEnd exonCount [0..<nat exonCount] file1 of
             Inl raised \<Rightarrow> Inl raised
           | Inr file2 \<Rightarrow>
               emit_codons source name chrom strand geneName first_codon last_codon exonCount
                 file2))"

text \<open>
  \<open>run\<close>, from line 266 on. \<open>isoforms[name]\<close> raises \<open>KeyError\<close> for a name that the
  table does not hold.
\<close>

definition run :: "bed_fields \<Rightarrow> (string \<rightharpoonup> string) \<Rightarrow> state \<Rightarrow> (error \<times> state) + state" where
  "run r isoforms st =
     (let chrom = f_chrom r; txStart = f_txStart r; txEnd = f_txEnd r; name = f_name r;
          strand = f_strand r; cdsStart = f_cdsStart r; cdsEnd = f_cdsEnd r;
          exonCount = f_exonCount r
      in
      case isoforms name of
        None \<Rightarrow> Inl (KeyError, st)
      | Some geneName \<Rightarrow>
      (case exon_lists r of
        Inl err \<Rightarrow> Inl (err, st)
      | Inr (exonStart, exonEnd) \<Rightarrow>
      let source = ''test'' in
      (case exon_frames cdsStart cdsEnd exonStart exonEnd strand of
        Inl err \<Rightarrow> Inl (err, st)
      | Inr frames \<Rightarrow>
      (case find_first_codon frames strand cdsStart cdsEnd exonStart exonEnd of
        Inl err \<Rightarrow> Inl (err, st)
      | Inr first_codon \<Rightarrow>
      (case find_last_codon frames strand cdsStart cdsEnd exonStart exonEnd of
        Inl err \<Rightarrow> Inl (err, st)
      | Inr last_codon \<Rightarrow>
      (case trim_cds strand txStart txEnd exonCount exonStart exonEnd cdsStart cdsEnd
              first_codon last_codon of
        Inl err \<Rightarrow> Inl (err, st)
      | Inr (first_utr_end, last_utr_start, cdsStart', cdsEnd') \<Rightarrow>
      (case emit_gene source geneName chrom strand txStart txEnd st of
        Inl raised \<Rightarrow> Inl raised
      | Inr st1 \<Rightarrow>
      (case emit_transcript source name chrom strand geneName txStart txEnd first_utr_end
              cdsStart' cdsEnd' last_utr_start frames exonStart exonEnd exonCount
              first_codon last_codon (gtf st1) of
        Inl (err, file) \<Rightarrow> Inl (err, st1\<lparr>gtf := file\<rparr>)
      | Inr file \<Rightarrow> Inr (st1\<lparr>gtf := file\<rparr>)))))))))"

text \<open>
  The loop of \<open>main\<close> over the lines of the input. Nothing catches an exception of
  \<open>run\<close>, so the first one ends the program.
\<close>

fun run_all :: "bed_fields list \<Rightarrow> (string \<rightharpoonup> string) \<Rightarrow> state \<Rightarrow> (error \<times> state) + state" where
  "run_all [] isoforms st = Inr st"
| "run_all (r # rs) isoforms st =
     (case run r isoforms st of
        Inl raised \<Rightarrow> Inl raised
      | Inr st1 \<Rightarrow> run_all rs isoforms st1)"

text \<open>The state at the start of the program: \<open>GENES = {}\<close> and an empty output file.\<close>

definition initial_state :: state where
  "initial_state = \<lparr>GENES = Map.empty, gtf = []\<rparr>"

section \<open>Notions that the properties are stated with\<close>

text \<open>The gene lines of a file, in their order.\<close>

definition gene_lines :: "gtf_file \<Rightarrow> gtf_line list" where
  "gene_lines file = filter (\<lambda>l. feature l = ''gene'') file"

text \<open>
  The records of a list that are the first to bear their gene name, each with that name:
  a record is dropped when the table has no gene for it or when its gene is in \<open>seen\<close>.
\<close>

fun first_bearers ::
  "(string \<rightharpoonup> string) \<Rightarrow> string set \<Rightarrow> bed_fields list \<Rightarrow> (string \<times> bed_fields) list"
where
  "first_bearers isoforms seen [] = []"
| "first_bearers isoforms seen (r # rs) =
     (case isoforms (f_name r) of
        None \<Rightarrow> first_bearers isoforms seen rs
      | Some g \<Rightarrow>
          if g \<in> seen then first_bearers isoforms seen rs
          else (g, r) # first_bearers isoforms (insert g seen) rs)"

text \<open>
  What a line that \<open>write_features\<close> writes for an exon \<open>[s, e)\<close> looks like: the UTR
  segment before the CDS, the CDS segment, or the UTR segment after the CDS.
\<close>

definition segment_line ::
  "string \<Rightarrow> int \<Rightarrow> int \<Rightarrow> int \<Rightarrow> int \<Rightarrow> int \<Rightarrow> int \<Rightarrow> int \<Rightarrow> gtf_line \<Rightarrow> bool"
where
  "segment_line strand firstUtrEnd cdsStart cdsEnd lastUtrStart frame s e l \<longleftrightarrow>
     (feature l = (if strand = ''+'' then ''5UTR'' else ''3UTR'')
        \<and> start_col l = s + 1 \<and> end_col l = min e firstUtrEnd)
     \<or> (feature l = ''CDS''
        \<and> start_col l = max s cdsStart + 1 \<and> end_col l = min e cdsEnd
        \<and> phase_col l = frame_to_phase frame)
     \<or> (feature l = (if strand = ''+'' then ''3UTR'' else ''5UTR'')
        \<and> start_col l = max lastUtrStart s + 1 \<and> end_col l = e)"

text \<open>
  The invariants of the exon list of a record: as many ends as starts, every exon
  starts before it ends, and every exon ends at or before the start of the next one.
\<close>

definition exons_wf :: "int list \<Rightarrow> int list \<Rightarrow> bool" where
  "exons_wf exonStart exonEnd \<longleftrightarrow>
     length exonEnd = length exonStart
     \<and> list_all2 (<) exonStart exonEnd
     \<and> list_all2 (\<le>) (butlast exonEnd) (tl exonStart)"

text \<open>
  The positions that lie in an exon, with the exons taken half-open, and the number of
  such positions in \<open>[a, b)\<close>: the bases of the transcript between \<open>a\<close> and \<open>b\<close>.
\<close>

definition exon_positions :: "int list \<Rightarrow> int list \<Rightarrow> int set" where
  "exon_positions exonStart exonEnd =
     {p. \<exists>i < length exonStart. exonStart ! i \<le> p \<and> p < exonEnd ! i}"

definition exon_bases :: "int list \<Rightarrow> int list \<Rightarrow> int \<Rightarrow> int \<Rightarrow> nat" where
  "exon_bases exonStart exonEnd a b = card ({a..<b} \<inter> exon_positions exonStart exonEnd)"

text \<open>
  Two records to run the program on. Scenario A of the specification: one exon
  \<open>[0, 300)\<close> on the strand \<open>"+"\<close> that is all CDS. Scenario B: the exons \<open>[0, 100)\<close> and
  \<open>[200, 300)\<close> on the strand \<open>"+"\<close> with the CDS \<open>[8, 201)\<close>, which ends one base into
  the second exon.
\<close>

definition scenario_A :: bed_fields where
  "scenario_A =
     \<lparr>f_chrom = ''chr1'', f_txStart = 0, f_txEnd = 300, f_name = ''t1'', f_strand = ''+'',
      f_cdsStart = 0, f_cdsEnd = 300, f_exonCount = 1,
      f_exonEnd_text = ''300,'', f_exonStart_text = ''0,'',
      f_exonEnd_ints = [300], f_exonStart_ints = [0]\<rparr>"

definition scenario_B :: bed_fields where
  "scenario_B =
     \<lparr>f_chrom = ''chr1'', f_txStart = 0, f_txEnd = 300, f_name = ''t2'', f_strand = ''+'',
      f_cdsStart = 8, f_cdsEnd = 201, f_exonCount = 2,
      f_exonEnd_text = ''100,100,'', f_exonStart_text = ''0,200,'',
      f_exonEnd_ints = [100, 100], f_exonStart_ints = [0, 200]\<rparr>"

text \<open>
  Scenario A with a transcript and an exon that go on to \<open>400\<close>, so that \<open>[300, 400)\<close>
  is a UTR after the CDS.
\<close>

definition scenario_A_utr :: bed_fields where
  "scenario_A_utr =
     scenario_A\<lparr>f_txEnd := 400, f_exonEnd_text := ''400,'', f_exonEnd_ints := [400]\<rparr>"

section \<open>Properties\<close>

subsection \<open>What a write appends\<close>

lemma build_gtf_line_Inr:
  assumes "build_gtf_line source name chrom strand geneName type_g start end exon frame
             exonCount file = Inr file'"
  obtains l where "file' = file @ [l]" and "feature l = type_g" and "start_col l = start + 1"
    and "end_col l = end" and "phase_col l = frame_to_phase frame" and "start \<le> end"
  using assms by (auto simp: build_gtf_line_def feature_line_def Let_def split: if_splits)

lemma write_features_Inr:
  assumes "write_features i source name chrom strand geneName firstUtrEnd cdsStart cdsEnd
             lastUtrStart frame exonStart exonEnd exonCount file = Inr file'"
  obtains s e file1 file2 where "py_get exonStart i = Inr s" and "py_get exonEnd i = Inr e"
    and "(if s < firstUtrEnd
          then build_gtf_line source name chrom strand geneName
                 (if strand = ''+'' then ''5UTR'' else ''3UTR'')
                 s (min e firstUtrEnd) i (- 1) exonCount file
          else Inr file) = Inr file1"
    and "(if cdsStart < e \<and> cdsEnd > s
          then build_gtf_line source name chrom strand geneName ''CDS''
                 (max s cdsStart) (min e cdsEnd) i frame exonCount file1
          else Inr file1) = Inr file2"
    and "(if e > lastUtrStart
          then build_gtf_line source name chrom strand geneName
                 (if strand = ''+'' then ''3UTR'' else ''5UTR'')
                 (max lastUtrStart s) e i (- 1) exonCount file2
          else Inr file2) = Inr file'"
  using assms unfolding write_features_def
  by (simp split: sum.splits)

lemma write_codon_Inr:
  assumes "write_codon source name chrom strand geneName type_g codon exonCount file = Inr file'"
  obtains file1 where
    "build_gtf_line source name chrom strand geneName type_g
       (cod0 codon) (cod1 codon) (cod4 codon) 0 exonCount file = Inr file1"
    and "(if cod2 codon < cod3 codon
          then build_gtf_line source name chrom strand geneName type_g
                 (cod2 codon) (cod1 codon) (cod5 codon) (cod1 codon - cod0 codon) exonCount file1
          else Inr file1) = Inr file'"
  using assms by (auto simp: write_codon_def split: sum.splits)

subsection \<open>The phase column\<close>

text \<open>
  Claim C8. The phase column of a line is a fixed lookup of the frame that is passed for
  the line: frame \<open>-1\<close> gives \<open>"."\<close>, frame \<open>0\<close> gives \<open>"0"\<close>, frame \<open>1\<close> gives \<open>"2"\<close> and
  frame \<open>2\<close> gives \<open>"1"\<close>. The CDS line that \<open>write_features\<close> writes carries the lookup of
  the frame it is called with; of the lines that \<open>write_codon\<close> writes, the first carries
  the lookup of \<open>0\<close> and the second the lookup of \<open>codon[1] - codon[0]\<close>, the frames that
  \<open>write_codon\<close> passes.
\<close>

theorem phase_is_fixed_lookup:
  "frame_to_phase (- 1) = ''.'' \<and> frame_to_phase 0 = ''0''
   \<and> frame_to_phase 1 = ''2'' \<and> frame_to_phase 2 = ''1''
   \<and> (write_features i source name chrom strand geneName firstUtrEnd cdsStart cdsEnd
          lastUtrStart frame exonStart exonEnd exonCount file = Inr file'
        \<longrightarrow> (\<forall>l \<in> set (drop (length file) file'). feature l = ''CDS''
               \<longrightarrow> phase_col l = frame_to_phase frame))
   \<and> (write_codon source name chrom strand geneName type_g codon exonCount file = Inr file''
        \<longrightarrow> (\<exists>l rest. file'' = file @ l # rest \<and> phase_col l = frame_to_phase 0
               \<and> (\<forall>l' \<in> set rest. phase_col l' = frame_to_phase (cod1 codon - cod0 codon))))"
proof -
  have tab: "frame_to_phase (- 1) = ''.'' \<and> frame_to_phase 0 = ''0''
     \<and> frame_to_phase 1 = ''2'' \<and> frame_to_phase 2 = ''1''"
    by (simp add: frame_to_phase_def)
  have feat: "\<forall>l \<in> set (drop (length file) file'). feature l = ''CDS''
               \<longrightarrow> phase_col l = frame_to_phase frame"
    if w: "write_features i source name chrom strand geneName firstUtrEnd cdsStart cdsEnd
             lastUtrStart frame exonStart exonEnd exonCount file = Inr file'"
  proof -
    from w obtain s e file1 file2 where
      a: "(if s < firstUtrEnd
           then build_gtf_line source name chrom strand geneName
                  (if strand = ''+'' then ''5UTR'' else ''3UTR'')
                  s (min e firstUtrEnd) i (- 1) exonCount file
           else Inr file) = Inr file1"
    and b: "(if cdsStart < e \<and> cdsEnd > s
             then build_gtf_line source name chrom strand geneName ''CDS''
                    (max s cdsStart) (min e cdsEnd) i frame exonCount file1
             else Inr file1) = Inr file2"
    and c: "(if e > lastUtrStart
             then build_gtf_line source name chrom strand geneName
                    (if strand = ''+'' then ''3UTR'' else ''5UTR'')
                    (max lastUtrStart s) e i (- 1) exonCount file2
             else Inr file2) = Inr file'"
      by (rule write_features_Inr)
    from a obtain ls1 where 1: "file1 = file @ ls1" "\<forall>l\<in>set ls1. feature l \<noteq> ''CDS''"
      by (cases "s < firstUtrEnd") (auto elim!: build_gtf_line_Inr)
    from b obtain ls2 where 2: "file2 = file1 @ ls2"
        "\<forall>l\<in>set ls2. phase_col l = frame_to_phase frame"
      by (cases "cdsStart < e \<and> cdsEnd > s") (auto elim!: build_gtf_line_Inr)
    from c obtain ls3 where 3: "file' = file2 @ ls3" "\<forall>l\<in>set ls3. feature l \<noteq> ''CDS''"
      by (cases "e > lastUtrStart") (auto elim!: build_gtf_line_Inr)
    from 1 2 3 show ?thesis by auto
  qed
  have cod: "\<exists>l rest. file'' = file @ l # rest \<and> phase_col l = frame_to_phase 0
               \<and> (\<forall>l' \<in> set rest. phase_col l' = frame_to_phase (cod1 codon - cod0 codon))"
    if w: "write_codon source name chrom strand geneName type_g codon exonCount file = Inr file''"
  proof -
    from w obtain file1 where
      a: "build_gtf_line source name chrom strand geneName type_g
            (cod0 codon) (cod1 codon) (cod4 codon) 0 exonCount file = Inr file1"
      and b: "(if cod2 codon < cod3 codon
               then build_gtf_line source name chrom strand geneName type_g
                      (cod2 codon) (cod1 codon) (cod5 codon) (cod1 codon - cod0 codon)
                      exonCount file1
               else Inr file1) = Inr file''"
      by (rule write_codon_Inr)
    from a obtain l where 1: "file1 = file @ [l]" "phase_col l = frame_to_phase 0"
      by (auto elim!: build_gtf_line_Inr)
    from b obtain rest where 2: "file'' = file1 @ rest"
         "\<forall>l' \<in> set rest. phase_col l' = frame_to_phase (cod1 codon - cod0 codon)"
      by (cases "cod2 codon < cod3 codon") (auto elim!: build_gtf_line_Inr)
    from 1 2 show ?thesis by auto
  qed
  from tab feat cod show ?thesis by blast
qed

text \<open>
  The lookup at work: a CDS line written for frame \<open>1\<close> has the phase \<open>"2"\<close>, and the two
  lines of a codon whose first interval has two bases have the phases \<open>"0"\<close> and \<open>"1"\<close>.
\<close>

theorem phase_is_fixed_lookup_witness:
  "write_features 0 ''test'' ''t1'' ''chr1'' ''+'' ''g1'' 0 0 297 300 1 [0] [300] 1 []
     = Inr [\<lparr>seqname = ''chr1'', source_col = ''test'', feature = ''CDS'', start_col = 1,
             end_col = 297, score_col = ''.'', strand_col = ''+'', phase_col = ''2'',
             attributes = [Gene_id ''g1'', Transcript_id ''t1'', Exon_number 1,
                           Exon_id ''t1'' 1]\<rparr>]
   \<and> write_codon ''test'' ''t1'' ''chr1'' ''+'' ''g1'' ''start_codon''
        \<lparr>cod0 = 10, cod1 = 12, cod2 = 10, cod3 = 11, cod4 = 1, cod5 = 0\<rparr> 2 []
     = Inr [\<lparr>seqname = ''chr1'', source_col = ''test'', feature = ''start_codon'',
             start_col = 11, end_col = 12, score_col = ''.'', strand_col = ''+'',
             phase_col = ''0'',
             attributes = [Gene_id ''g1'', Transcript_id ''t1'', Exon_number 2,
                           Exon_id ''t1'' 2]\<rparr>,
            \<lparr>seqname = ''chr1'', source_col = ''test'', feature = ''start_codon'',
             start_col = 11, end_col = 12, score_col = ''.'', strand_col = ''+'',
             phase_col = ''1'',
             attributes = [Gene_id ''g1'', Transcript_id ''t1'', Exon_number 1,
                           Exon_id ''t1'' 1]\<rparr>]"
  using phase_is_fixed_lookup [where i = 0 and source = "''test''" and name = "''t1''"
      and chrom = "''chr1''" and strand = "''+''" and geneName = "''g1''" and firstUtrEnd = 0
      and cdsStart = 0 and cdsEnd = 297 and lastUtrStart = 300 and frame = 1
      and exonStart = "[0]" and exonEnd = "[300]" and exonCount = 1 and ?file = "[]"
      and type_g = "''start_codon''"
      and codon = "\<lparr>cod0 = 10, cod1 = 12, cod2 = 10, cod3 = 11, cod4 = 1, cod5 = 0\<rparr>"]
  by (simp add: write_features_def write_codon_def build_gtf_line_def feature_line_def
        py_get_def frame_to_phase_def)

subsection \<open>The second record of a split codon\<close>

text \<open>
  Claim C10. When \<open>write_codon\<close> writes a descriptor whose second interval is not empty
  (\<open>codon[2] < codon[3]\<close>), it writes two records, and the second one is the record that
  \<open>build_gtf_line\<close> makes from the start \<open>codon[2]\<close>, the end \<open>codon[1]\<close> (the end of the
  first interval, not \<open>codon[3]\<close>), the exon \<open>codon[5]\<close> and the frame
  \<open>codon[1] - codon[0]\<close>, the length of the first interval.
\<close>

theorem second_codon_record:
  assumes "cod2 codon < cod3 codon"
    and "write_codon source name chrom strand geneName type_g codon exonCount file = Inr file'"
  shows "\<exists>l1 l2. file' = file @ [l1, l2]
           \<and> build_gtf_line source name chrom strand geneName type_g (cod2 codon) (cod1 codon)
               (cod5 codon) (cod1 codon - cod0 codon) exonCount (file @ [l1]) = Inr file'
           \<and> feature l2 = type_g \<and> start_col l2 = cod2 codon + 1 \<and> end_col l2 = cod1 codon
           \<and> phase_col l2 = frame_to_phase (cod1 codon - cod0 codon)"
proof -
  from assms(2) obtain file1 where
      a: "build_gtf_line source name chrom strand geneName type_g
            (cod0 codon) (cod1 codon) (cod4 codon) 0 exonCount file = Inr file1"
      and b0: "(if cod2 codon < cod3 codon
                then build_gtf_line source name chrom strand geneName type_g
                       (cod2 codon) (cod1 codon) (cod5 codon) (cod1 codon - cod0 codon)
                       exonCount file1
                else Inr file1) = Inr file'"
    by (rule write_codon_Inr)
  from b0 assms(1) have
      b: "build_gtf_line source name chrom strand geneName type_g
            (cod2 codon) (cod1 codon) (cod5 codon) (cod1 codon - cod0 codon) exonCount file1
          = Inr file'"
    by simp
  from a obtain l1 where 1: "file1 = file @ [l1]"
    by (auto elim!: build_gtf_line_Inr)
  from b obtain l2 where 2: "file' = file1 @ [l2]" "feature l2 = type_g"
     "start_col l2 = cod2 codon + 1" "end_col l2 = cod1 codon"
     "phase_col l2 = frame_to_phase (cod1 codon - cod0 codon)"
    by (auto elim!: build_gtf_line_Inr)
  from 1 2 b show ?thesis by auto
qed

text \<open>
  A descriptor with the intervals \<open>[10, 12)\<close> and \<open>[10, 11)\<close>: the second record ends at
  \<open>12\<close>, which is \<open>codon[1]\<close>, and its phase is the lookup of the frame \<open>2\<close>.
\<close>

theorem second_codon_record_witness:
  "cod2 \<lparr>cod0 = 10, cod1 = 12, cod2 = 10, cod3 = 11, cod4 = 1, cod5 = 0\<rparr>
     < cod3 \<lparr>cod0 = 10, cod1 = 12, cod2 = 10, cod3 = 11, cod4 = 1, cod5 = 0\<rparr>
   \<and> write_codon ''test'' ''t1'' ''chr1'' ''+'' ''g1'' ''start_codon''
        \<lparr>cod0 = 10, cod1 = 12, cod2 = 10, cod3 = 11, cod4 = 1, cod5 = 0\<rparr> 2 []
     = Inr [\<lparr>seqname = ''chr1'', source_col = ''test'', feature = ''start_codon'',
             start_col = 11, end_col = 12, score_col = ''.'', strand_col = ''+'',
             phase_col = ''0'',
             attributes = [Gene_id ''g1'', Transcript_id ''t1'', Exon_number 2,
                           Exon_id ''t1'' 2]\<rparr>,
            \<lparr>seqname = ''chr1'', source_col = ''test'', feature = ''start_codon'',
             start_col = 11, end_col = 12, score_col = ''.'', strand_col = ''+'',
             phase_col = ''1'',
             attributes = [Gene_id ''g1'', Transcript_id ''t1'', Exon_number 1,
                           Exon_id ''t1'' 1]\<rparr>]"
proof -
  have h1: "cod2 \<lparr>cod0 = 10, cod1 = 12, cod2 = 10, cod3 = 11, cod4 = 1, cod5 = 0\<rparr>
     < cod3 \<lparr>cod0 = 10, cod1 = 12, cod2 = 10, cod3 = 11, cod4 = 1, cod5 = 0\<rparr>"
    by simp
  have h2: "write_codon ''test'' ''t1'' ''chr1'' ''+'' ''g1'' ''start_codon''
        \<lparr>cod0 = 10, cod1 = 12, cod2 = 10, cod3 = 11, cod4 = 1, cod5 = 0\<rparr> 2 []
     = Inr [\<lparr>seqname = ''chr1'', source_col = ''test'', feature = ''start_codon'',
             start_col = 11, end_col = 12, score_col = ''.'', strand_col = ''+'',
             phase_col = ''0'',
             attributes = [Gene_id ''g1'', Transcript_id ''t1'', Exon_number 2,
                           Exon_id ''t1'' 2]\<rparr>,
            \<lparr>seqname = ''chr1'', source_col = ''test'', feature = ''start_codon'',
             start_col = 11, end_col = 12, score_col = ''.'', strand_col = ''+'',
             phase_col = ''1'',
             attributes = [Gene_id ''g1'', Transcript_id ''t1'', Exon_number 1,
                           Exon_id ''t1'' 1]\<rparr>]"
    by (simp add: write_codon_def build_gtf_line_def feature_line_def frame_to_phase_def)
  from second_codon_record [OF h1 h2] h1 h2 show ?thesis by simp
qed

subsection \<open>Reads that are in range\<close>

lemma py_get_nth: "i < length xs \<Longrightarrow> py_get xs (int i) = Inr (xs ! i)"
  by (simp add: py_get_def)

lemma in_exon_nth:
  "i < length es \<Longrightarrow> i < length ee \<Longrightarrow>
   in_exon (int i) pos es ee = Inr (es ! i \<le> pos \<and> pos \<le> ee ! i)"
  by (simp add: in_exon_def py_get_nth)

lemma find_exon_hit:
  assumes "\<forall>j \<in> set js. j < length es \<and> j < length ee"
    and "i \<in> set js" and "es ! i \<le> pos" and "pos \<le> ee ! i"
  shows "\<exists>j \<in> set js. find_exon pos es ee js = Inr (Some (int j)) \<and> es ! j \<le> pos \<and> pos \<le> ee ! j"
  using assms
proof (induction js)
  case Nil
  then show ?case by simp
next
  case (Cons a js)
  show ?case
  proof (cases "es ! a \<le> pos \<and> pos \<le> ee ! a")
    case True
    with Cons.prems show ?thesis by (simp add: in_exon_nth)
  next
    case False
    with Cons.prems have "i \<in> set js" by auto
    with Cons.IH Cons.prems obtain j where "j \<in> set js"
      "find_exon pos es ee js = Inr (Some (int j))" "es ! j \<le> pos" "pos \<le> ee ! j"
      by auto
    with False Cons.prems show ?thesis by (simp add: in_exon_nth)
  qed
qed

lemma find_exon_miss:
  assumes "\<forall>j \<in> set js. j < length es \<and> j < length ee"
    and "\<forall>j \<in> set js. \<not> (es ! j \<le> pos \<and> pos \<le> ee ! j)"
  shows "find_exon pos es ee js = Inr None"
  using assms by (induction js) (auto simp: in_exon_nth)

lemma move_step_nth:
  assumes "length es = n" and "length ee = n" and "0 \<le> exon" and "exon < int n"
  shows "move_step (int n) es ee direction (exon, pos, steps) =
     (if es ! nat exon \<le> pos + direction \<and> pos + direction \<le> ee ! nat exon
      then Inr (exon, pos + direction, steps - 1)
      else if direction \<ge> 0
      then (if exon + 1 < int n then Inr (exon + 1, es ! nat (exon + 1), steps)
            else Inr (exon + 1, pos, steps))
      else (if exon - 1 \<ge> 0 then Inr (exon - 1, ee ! nat (exon - 1) - 1, steps - 1)
            else Inr (exon - 1, pos, steps)))"
proof -
  from assms have a: "in_exon exon (pos + direction) es ee
      = Inr (es ! nat exon \<le> pos + direction \<and> pos + direction \<le> ee ! nat exon)"
    using in_exon_nth [of "nat exon" es ee "pos + direction"] by simp
  have b: "exon + 1 < int n \<Longrightarrow> py_get es (exon + 1) = Inr (es ! nat (exon + 1))"
    using assms py_get_nth [of "nat (exon + 1)" es] by simp
  have c: "exon - 1 \<ge> 0 \<Longrightarrow> py_get ee (exon - 1) = Inr (ee ! nat (exon - 1))"
    using assms py_get_nth [of "nat (exon - 1)" ee] by simp
  show ?thesis
    unfolding move_step_def by (simp add: a b c)
qed

lemma move_step_total:
  assumes "length es = n" and "length ee = n" and "0 \<le> exon" and "exon < int n"
  shows "\<exists>w. move_step (int n) es ee direction (exon, pos, steps) = Inr w"
  unfolding move_step_nth [OF assms] by simp

lemma move_loop_total:
  assumes "length es = length ee" and "exonCount = int (length es)"
  shows "\<exists>w. move_loop exonCount es ee direction w0 = Inr w"
  using assms
proof (induction exonCount es ee direction w0 rule: move_loop.induct)
  case (1 exonCount exonStart exonEnd direction exon pos steps)
  show ?case
  proof (cases "0 \<le> exon \<and> exon < exonCount \<and> steps > 0")
    case True
    with "1.prems" have r: "length exonEnd = length exonStart" "0 \<le> exon"
        "exon < int (length exonStart)"
      by simp_all
    have "\<exists>w. move_step (int (length exonStart)) exonStart exonEnd direction (exon, pos, steps)
             = Inr w"
      by (rule move_step_total [OF refl r])
    then obtain w where
      w: "move_step exonCount exonStart exonEnd direction (exon, pos, steps) = Inr w"
      unfolding "1.prems"(2) by blast
    from "1.IH" [OF True w "1.prems"] obtain w' where
      "move_loop exonCount exonStart exonEnd direction w = Inr w'" by blast
    with True w show ?thesis
      by (cases w') (subst move_loop.simps, simp)
  next
    case False
    then show ?thesis by (subst move_loop.simps) auto
  qed
qed

subsection \<open>The frames that are computed\<close>

text \<open>
  \<open>exon_frames\<close> returns one frame for every exon, and every frame is \<open>-1\<close>, \<open>0\<close>, \<open>1\<close>
  or \<open>2\<close>.
\<close>

lemma exon_frames_loop_values:
  assumes "exon_frames_loop cs ce es ee xs (frames, cds) = Inr (frames', cds')"
    and "set frames \<subseteq> {- 1, 0, 1, 2}"
  shows "length frames' = length frames \<and> set frames' \<subseteq> {- 1, 0, 1, 2}"
  using assms
proof (induction xs arbitrary: frames cds)
  case Nil
  then show ?case by simp
next
  case (Cons x xs)
  from Cons.prems(1) obtain fr c where
    r: "exon_frames_loop cs ce es ee xs (fr, c) = Inr (frames', cds')"
    and fr: "fr = frames[x := cds mod 3] \<or> fr = frames[x := - 1]"
    by (auto split: sum.splits prod.splits if_splits)
  have "cds mod 3 \<in> {0, 1, 2}"
    using pos_mod_sign [of 3 cds] pos_mod_bound [of 3 cds] by auto
  with fr Cons.prems(2) have "set fr \<subseteq> {- 1, 0, 1, 2}"
    using set_update_subset_insert [of frames x] by fastforce
  from Cons.IH [OF r this] fr show ?case by auto
qed

lemma exon_frames_values:
  assumes "exon_frames cdsStart cdsEnd exonStart exonEnd strand = Inr frames"
  shows "length frames = length exonStart \<and> set frames \<subseteq> {- 1, 0, 1, 2}"
proof -
  from assms obtain cds where
    "exon_frames_loop cdsStart cdsEnd exonStart exonEnd
       (exon_range strand (length exonStart)) (replicate (length exonStart) 0, 0)
     = Inr (frames, cds)"
    by (auto simp: exon_frames_def exon_frames_state_def split: sum.splits)
  moreover have "set (replicate (length exonStart) (0 :: int)) \<subseteq> {- 1, 0, 1, 2}"
    by (cases "length exonStart") auto
  ultimately show ?thesis
    using exon_frames_loop_values by fastforce
qed

subsection \<open>The exon search of the codon functions\<close>

lemma codon_scan_first:
  "2 \<le> length frames \<Longrightarrow>
   codon_scan frames [0..<length frames - 1] = (if frames ! 0 \<ge> 0 then Inr 0 else Inl no_codon)"
  by (cases "length frames - 1") (auto simp: upt_rec)

lemma codon_scan_single: "length frames \<le> 1 \<Longrightarrow> codon_scan frames [0..<length frames - 1] = Inr 0"
  by simp

lemma codon_scan_last:
  "frames \<noteq> [] \<Longrightarrow>
   codon_scan frames (rev [0..<length frames]) =
     (if last frames \<ge> 0 then Inr (length frames - 1) else Inl no_codon)"
  by (cases frames rule: rev_cases) (auto simp: nth_append)

text \<open>
  Claim C1, for the records whose first scanned exon is coding. The scan starts at exon
  \<open>0\<close> for \<open>find_first_codon\<close> and at the last exon for \<open>find_last_codon\<close>. When the
  frame of that exon is not \<open>-1\<close>, it is the first exon of the scan order whose frame is
  not \<open>-1\<close>, it is the exon selected, and the descriptor is built against it: the
  descriptor is the zero descriptor when the phase of that exon is not \<open>0\<close>; and when the
  phase is \<open>0\<close> and the three bases at the coding boundary lie in that exon and in the
  CDS, the descriptor is the one interval of these three bases with the index of that
  exon and an empty second interval. When no exon has a frame other than \<open>-1\<close>, the
  descriptor is the zero descriptor (for \<open>find_first_codon\<close> on a single exon: when the
  strand is \<open>"+"\<close> or the CDS has fewer than two bases). Nothing is said of a record
  whose first scanned exon has the frame \<open>-1\<close> while a later exon is coding, nor of a
  codon whose three bases do not lie in the selected exon.
\<close>

theorem codon_search_at_first_scanned_exon:
  assumes "length exonStart = length frames" and "length exonEnd = length frames"
    and "frames \<noteq> []" and "set frames \<subseteq> {- 1, 0, 1, 2}"
  shows
    "(frames ! 0 \<noteq> - 1 \<longrightarrow>
        ((if strand = ''+'' then frames ! 0
          else (frames ! 0 + (min (exonEnd ! 0) cdsEnd - max (exonStart ! 0) cdsStart)) mod 3) \<noteq> 0 \<longrightarrow>
           find_first_codon frames strand cdsStart cdsEnd exonStart exonEnd = Inr no_codon)
      \<and> ((if strand = ''+'' then frames ! 0
           else (frames ! 0 + (min (exonEnd ! 0) cdsEnd - max (exonStart ! 0) cdsStart)) mod 3) = 0
          \<and> exonStart ! 0 \<le> cdsStart \<and> cdsStart + 3 \<le> min (exonEnd ! 0) cdsEnd \<longrightarrow>
           find_first_codon frames strand cdsStart cdsEnd exonStart exonEnd =
             Inr \<lparr>cod0 = cdsStart, cod1 = cdsStart + 3, cod2 = 0, cod3 = 0, cod4 = 0, cod5 = 0\<rparr>))
     \<and> (last frames \<noteq> - 1 \<longrightarrow>
        ((if strand = ''-'' then last frames
          else (last frames + (min (last exonEnd) cdsEnd - max (last exonStart) cdsStart)) mod 3) \<noteq> 0 \<longrightarrow>
           find_last_codon frames strand cdsStart cdsEnd exonStart exonEnd = Inr no_codon)
      \<and> ((if strand = ''-'' then last frames
           else (last frames + (min (last exonEnd) cdsEnd - max (last exonStart) cdsStart)) mod 3) = 0
          \<and> max (last exonStart) cdsStart \<le> cdsEnd - 3 \<and> cdsEnd \<le> last exonEnd \<longrightarrow>
           find_last_codon frames strand cdsStart cdsEnd exonStart exonEnd =
             Inr \<lparr>cod0 = cdsEnd - 3, cod1 = cdsEnd, cod2 = 0, cod3 = 0,
                  cod4 = int (length frames) - 1, cod5 = 0\<rparr>))
     \<and> ((\<forall>f \<in> set frames. f = - 1)
          \<and> (2 \<le> length frames \<or> strand = ''+'' \<or> cdsEnd - cdsStart < 2) \<longrightarrow>
        find_first_codon frames strand cdsStart cdsEnd exonStart exonEnd = Inr no_codon)
     \<and> ((\<forall>f \<in> set frames. f = - 1) \<longrightarrow>
        find_last_codon frames strand cdsStart cdsEnd exonStart exonEnd = Inr no_codon)"
proof -
  let ?n = "length frames"
  from assms have n: "0 < ?n" by simp
  have dom: "f \<noteq> - 1 \<Longrightarrow> 0 \<le> f" if "f \<in> set frames" for f
    using that assms(4) by auto
  from n have f0: "frames ! 0 \<in> set frames" by simp
  from assms(3) have fl: "last frames \<in> set frames" by simp
  have g0: "py_get exonStart (int 0) = Inr (exonStart ! 0)" "py_get exonEnd (int 0) = Inr (exonEnd ! 0)"
      "py_get frames (int 0) = Inr (frames ! 0)"
    using n assms(1,2) by (simp_all add: py_get_def)
  have ne: "exonStart \<noteq> []" "exonEnd \<noteq> []" using assms(1,2,3) by auto
  have gl: "py_get exonStart (int (?n - 1)) = Inr (last exonStart)"
      "py_get exonEnd (int (?n - 1)) = Inr (last exonEnd)"
      "py_get frames (int (?n - 1)) = Inr (last frames)"
    using n assms(1,2,3) ne by (simp_all add: py_get_nth last_conv_nth)
  from n have i: "int (?n - 1) = int ?n - 1" by (cases frames) simp_all
  have scan0: "frames ! 0 \<noteq> - 1 \<Longrightarrow> codon_scan frames [0..<?n - 1] = Inr 0"
    using dom [OF f0] codon_scan_first [of frames] codon_scan_single [of frames]
    by (cases "2 \<le> ?n") auto
  have scanl: "last frames \<noteq> - 1 \<Longrightarrow> codon_scan frames (rev [0..<?n]) = Inr (?n - 1)"
    using dom [OF fl] codon_scan_last [OF assms(3)] by auto
  have first_a: "frames ! 0 \<noteq> - 1 \<longrightarrow>
        ((if strand = ''+'' then frames ! 0
          else (frames ! 0 + (min (exonEnd ! 0) cdsEnd - max (exonStart ! 0) cdsStart)) mod 3) \<noteq> 0 \<longrightarrow>
           find_first_codon frames strand cdsStart cdsEnd exonStart exonEnd = Inr no_codon)
      \<and> ((if strand = ''+'' then frames ! 0
           else (frames ! 0 + (min (exonEnd ! 0) cdsEnd - max (exonStart ! 0) cdsStart)) mod 3) = 0
          \<and> exonStart ! 0 \<le> cdsStart \<and> cdsStart + 3 \<le> min (exonEnd ! 0) cdsEnd \<longrightarrow>
           find_first_codon frames strand cdsStart cdsEnd exonStart exonEnd =
             Inr \<lparr>cod0 = cdsStart, cod1 = cdsStart + 3, cod2 = 0, cod3 = 0, cod4 = 0, cod5 = 0\<rparr>)"
  proof
    assume a: "frames ! 0 \<noteq> - 1"
    show "((if strand = ''+'' then frames ! 0
          else (frames ! 0 + (min (exonEnd ! 0) cdsEnd - max (exonStart ! 0) cdsStart)) mod 3) \<noteq> 0 \<longrightarrow>
           find_first_codon frames strand cdsStart cdsEnd exonStart exonEnd = Inr no_codon)
      \<and> ((if strand = ''+'' then frames ! 0
           else (frames ! 0 + (min (exonEnd ! 0) cdsEnd - max (exonStart ! 0) cdsStart)) mod 3) = 0
          \<and> exonStart ! 0 \<le> cdsStart \<and> cdsStart + 3 \<le> min (exonEnd ! 0) cdsEnd \<longrightarrow>
           find_first_codon frames strand cdsStart cdsEnd exonStart exonEnd =
             Inr \<lparr>cod0 = cdsStart, cod1 = cdsStart + 3, cod2 = 0, cod3 = 0, cod4 = 0, cod5 = 0\<rparr>)"
      unfolding find_first_codon_def scan0 [OF a]
      using g0 by (auto simp: check_exon_frame_def no_codon_def Let_def min_def max_def)
  qed
  have last_a: "last frames \<noteq> - 1 \<longrightarrow>
        ((if strand = ''-'' then last frames
          else (last frames + (min (last exonEnd) cdsEnd - max (last exonStart) cdsStart)) mod 3) \<noteq> 0 \<longrightarrow>
           find_last_codon frames strand cdsStart cdsEnd exonStart exonEnd = Inr no_codon)
      \<and> ((if strand = ''-'' then last frames
           else (last frames + (min (last exonEnd) cdsEnd - max (last exonStart) cdsStart)) mod 3) = 0
          \<and> max (last exonStart) cdsStart \<le> cdsEnd - 3 \<and> cdsEnd \<le> last exonEnd \<longrightarrow>
           find_last_codon frames strand cdsStart cdsEnd exonStart exonEnd =
             Inr \<lparr>cod0 = cdsEnd - 3, cod1 = cdsEnd, cod2 = 0, cod3 = 0,
                  cod4 = int (length frames) - 1, cod5 = 0\<rparr>)"
  proof
    assume a: "last frames \<noteq> - 1"
    show "((if strand = ''-'' then last frames
          else (last frames + (min (last exonEnd) cdsEnd - max (last exonStart) cdsStart)) mod 3) \<noteq> 0 \<longrightarrow>
           find_last_codon frames strand cdsStart cdsEnd exonStart exonEnd = Inr no_codon)
      \<and> ((if strand = ''-'' then last frames
           else (last frames + (min (last exonEnd) cdsEnd - max (last exonStart) cdsStart)) mod 3) = 0
          \<and> max (last exonStart) cdsStart \<le> cdsEnd - 3 \<and> cdsEnd \<le> last exonEnd \<longrightarrow>
           find_last_codon frames strand cdsStart cdsEnd exonStart exonEnd =
             Inr \<lparr>cod0 = cdsEnd - 3, cod1 = cdsEnd, cod2 = 0, cod3 = 0,
                  cod4 = int (length frames) - 1, cod5 = 0\<rparr>)"
      unfolding find_last_codon_def scanl [OF a]
      using gl i by (auto simp: check_exon_frame_def no_codon_def Let_def min_def max_def)
  qed
  have first_b: "(\<forall>f \<in> set frames. f = - 1)
          \<and> (2 \<le> length frames \<or> strand = ''+'' \<or> cdsEnd - cdsStart < 2) \<longrightarrow>
        find_first_codon frames strand cdsStart cdsEnd exonStart exonEnd = Inr no_codon"
  proof (intro impI, elim conjE)
    assume all: "\<forall>f \<in> set frames. f = - 1"
      and d: "2 \<le> length frames \<or> strand = ''+'' \<or> cdsEnd - cdsStart < 2"
    from all f0 have m: "frames ! 0 = - 1" by blast
    show "find_first_codon frames strand cdsStart cdsEnd exonStart exonEnd = Inr no_codon"
    proof (cases "2 \<le> ?n")
      case True
      with m show ?thesis
        using codon_scan_first [of frames] by (simp add: find_first_codon_def)
    next
      case False
      then have s: "codon_scan frames [0..<?n - 1] = Inr 0" by simp
      from False d have "strand = ''+'' \<or> cdsEnd - cdsStart < 2" by simp
      then show ?thesis
        unfolding find_first_codon_def s
        using g0 m by (auto simp: check_exon_frame_def no_codon_def Let_def min_def)
    qed
  qed
  have last_b: "(\<forall>f \<in> set frames. f = - 1) \<longrightarrow>
        find_last_codon frames strand cdsStart cdsEnd exonStart exonEnd = Inr no_codon"
    using fl codon_scan_last [OF assms(3)] by (auto simp: find_last_codon_def)
  from first_a last_a first_b last_b show ?thesis by blast
qed

text \<open>
  The two searches where the codon lies in the exon that is scanned first (the frames
  \<open>[0, 2]\<close> of the exons \<open>[0, 100)\<close> and \<open>[200, 300)\<close> with the CDS \<open>[8, 201)\<close>, and the
  single exon \<open>[0, 300)\<close> that is all CDS), where the phase of that exon is not \<open>0\<close>, and
  on the frames \<open>[-1, -1]\<close> of a record without a CDS.
\<close>

theorem codon_search_at_first_scanned_exon_witness:
  "find_first_codon [0, 2] ''+'' 8 201 [0, 200] [100, 300]
     = Inr \<lparr>cod0 = 8, cod1 = 11, cod2 = 0, cod3 = 0, cod4 = 0, cod5 = 0\<rparr>
   \<and> find_last_codon [0] ''+'' 0 300 [0] [300]
     = Inr \<lparr>cod0 = 297, cod1 = 300, cod2 = 0, cod3 = 0, cod4 = 0, cod5 = 0\<rparr>
   \<and> find_first_codon [0] ''-'' 10 50 [0] [100] = Inr no_codon
   \<and> find_last_codon [0, 2] ''+'' 8 202 [0, 200] [100, 300] = Inr no_codon
   \<and> find_first_codon [- 1, - 1] ''+'' 5 5 [0, 200] [100, 300] = Inr no_codon
   \<and> find_last_codon [- 1, - 1] ''+'' 5 5 [0, 200] [100, 300] = Inr no_codon"
  using codon_search_at_first_scanned_exon [where exonStart = "[0, 200]" and frames = "[0, 2]" and exonEnd = "[100, 300]"
      and strand = "''+''" and cdsStart = 8 and cdsEnd = 201]
    codon_search_at_first_scanned_exon [where exonStart = "[0]" and frames = "[0]" and exonEnd = "[300]"
      and strand = "''+''" and cdsStart = 0 and cdsEnd = 300]
    codon_search_at_first_scanned_exon [where exonStart = "[0]" and frames = "[0]" and exonEnd = "[100]"
      and strand = "''-''" and cdsStart = 10 and cdsEnd = 50]
    codon_search_at_first_scanned_exon [where exonStart = "[0, 200]" and frames = "[0, 2]" and exonEnd = "[100, 300]"
      and strand = "''+''" and cdsStart = 8 and cdsEnd = 202]
    codon_search_at_first_scanned_exon [where exonStart = "[0, 200]" and frames = "[- 1, - 1]" and exonEnd = "[100, 300]"
      and strand = "''+''" and cdsStart = 5 and cdsEnd = 5]
  by (simp add: no_codon_def)

text \<open>
  Claim C1 as it is stated fails in its last part: the zero descriptor is returned for
  records that have a coding exon. A single exon \<open>[0, 100)\<close> with the CDS \<open>[10, 50)\<close> has
  the frame \<open>0\<close>, and \<open>find_last_codon\<close> returns the zero descriptor, since the 40 bases
  of the CDS do not end on a codon boundary.
\<close>

theorem absent_descriptor_for_coding_exon:
  "exon_frames 10 50 [0] [100] ''+'' = Inr [0]
   \<and> find_last_codon [0] ''+'' 10 50 [0] [100] = Inr no_codon"
  by (simp add: exon_frames_def exon_frames_state_def exon_range_def upt_rec
        py_get_def check_exon_frame_def find_last_codon_def Let_def)

subsection \<open>A codon that spans two exons\<close>

text \<open>
  Claim C2, at the record of scenario B: the exons \<open>[0, 100)\<close> and \<open>[200, 300)\<close> on the
  strand \<open>"+"\<close>, \<open>cdsStart = 8\<close> and \<open>cdsEnd = 201\<close>, one base into the second exon. The
  stop codon is the bases \<open>98\<close>, \<open>99\<close> and \<open>200\<close>. \<open>find_last_codon\<close> returns the one
  interval \<open>[198, 201)\<close> with the index of the second exon and an empty second interval,
  and \<open>run\<close> writes one stop codon line, for the columns \<open>199\<close> to \<open>201\<close>, which lie over
  the intron. \<open>find_first_codon\<close> does the same at the other end: for the CDS
  \<open>[98, 203)\<close>, whose first codon is the bases \<open>98\<close>, \<open>99\<close> and \<open>200\<close>, it returns the one
  interval \<open>[98, 101)\<close>.
\<close>

theorem stop_codon_over_intron_is_one_interval:
  "exon_frames 8 201 [0, 200] [100, 300] ''+'' = Inr [0, 2]
   \<and> find_last_codon [0, 2] ''+'' 8 201 [0, 200] [100, 300]
       = Inr \<lparr>cod0 = 198, cod1 = 201, cod2 = 0, cod3 = 0, cod4 = 1, cod5 = 0\<rparr>
   \<and> (case run scenario_B [''t2'' \<mapsto> ''g2''] initial_state of
         Inl raised \<Rightarrow> []
       | Inr st \<Rightarrow>
           map (\<lambda>l. (feature l, start_col l, end_col l))
             (filter (\<lambda>l. feature l = ''stop_codon'') (gtf st)))
       = [(''stop_codon'', 199, 201)]
   \<and> exon_frames 98 203 [0, 200] [100, 300] ''+'' = Inr [0, 2]
   \<and> find_first_codon [0, 2] ''+'' 98 203 [0, 200] [100, 300]
       = Inr \<lparr>cod0 = 98, cod1 = 101, cod2 = 0, cod3 = 0, cod4 = 0, cod5 = 0\<rparr>"
  by (simp add: scenario_B_def run_def exon_lists_def exon_frames_def exon_frames_state_def
        exon_range_def find_first_codon_def find_last_codon_def trim_cds_def move_pos_def
        move_loop.simps move_step_def in_exon_def py_get_def emit_gene_def emit_transcript_def
        emit_codons_def build_gene_line_def build_gtf_line_def feature_line_def gene_line_def
        write_features_def write_codon_def codon_complete_def frame_to_phase_def upt_rec
        initial_state_def check_exon_frame_def no_codon_def Let_def)

subsection \<open>One pass of the walk\<close>

text \<open>
  Claim C3, as the code has it. On an exon list of \<open>exonCount\<close> entries and inside the
  loop (\<open>0 <= exon < exonCount\<close>): a step that stays within the closed interval of the
  current exon takes one unit off \<open>steps\<close>; a forward jump to the start of the next exon
  takes none; a backward jump lands on the last base \<open>exonEnd - 1\<close> of the exon before and
  takes one unit.
\<close>

theorem move_step_cost:
  assumes "length exonStart = length exonEnd" and "exonCount = int (length exonStart)"
    and "0 \<le> exon" and "exon < exonCount"
  shows "(exonStart ! nat exon \<le> pos + direction \<and> pos + direction \<le> exonEnd ! nat exon
            \<longrightarrow> move_step exonCount exonStart exonEnd direction (exon, pos, steps)
                 = Inr (exon, pos + direction, steps - 1))
       \<and> (\<not> (exonStart ! nat exon \<le> pos + direction \<and> pos + direction \<le> exonEnd ! nat exon)
            \<and> direction \<ge> 0 \<and> exon + 1 < exonCount
            \<longrightarrow> move_step exonCount exonStart exonEnd direction (exon, pos, steps)
                 = Inr (exon + 1, exonStart ! nat (exon + 1), steps))
       \<and> (\<not> (exonStart ! nat exon \<le> pos + direction \<and> pos + direction \<le> exonEnd ! nat exon)
            \<and> direction < 0 \<and> exon - 1 \<ge> 0
            \<longrightarrow> move_step exonCount exonStart exonEnd direction (exon, pos, steps)
                 = Inr (exon - 1, exonEnd ! nat (exon - 1) - 1, steps - 1))"
proof -
  have "move_step (int (length exonStart)) exonStart exonEnd direction (exon, pos, steps) =
     (if exonStart ! nat exon \<le> pos + direction \<and> pos + direction \<le> exonEnd ! nat exon
      then Inr (exon, pos + direction, steps - 1)
      else if direction \<ge> 0
      then (if exon + 1 < int (length exonStart) then Inr (exon + 1, exonStart ! nat (exon + 1), steps)
            else Inr (exon + 1, pos, steps))
      else (if exon - 1 \<ge> 0 then Inr (exon - 1, exonEnd ! nat (exon - 1) - 1, steps - 1)
            else Inr (exon - 1, pos, steps)))"
    using assms by (intro move_step_nth) auto
  with assms(2) show ?thesis by simp
qed

text \<open>
  The three kinds of pass on the exons \<open>[0, 100]\<close> and \<open>[200, 300]\<close>: a step back inside
  exon \<open>1\<close>, a jump forward from the end of exon \<open>0\<close> and a jump back from the start of
  exon \<open>1\<close>.
\<close>

theorem move_step_cost_witness:
  "move_step 2 [0, 200] [100, 300] (- 1) (1, 201, 3) = Inr (1, 200, 2)
   \<and> move_step 2 [0, 200] [100, 300] 1 (0, 100, 1) = Inr (1, 200, 1)
   \<and> move_step 2 [0, 200] [100, 300] (- 1) (1, 200, 2) = Inr (0, 99, 1)"
  using move_step_cost [of "[0, 200]" "[100, 300]" 2 1 201 "- 1" 3]
    move_step_cost [of "[0, 200]" "[100, 300]" 2 0 100 1 1]
    move_step_cost [of "[0, 200]" "[100, 300]" 2 1 200 "- 1" 2]
  by simp

text \<open>
  Claim C3 as it is stated fails in the backward direction: from the start \<open>200\<close> of exon
  \<open>1\<close> the position \<open>199\<close> is not in the exon, and the jump to exon \<open>0\<close> takes \<open>steps\<close>
  from \<open>3\<close> to \<open>2\<close>.
\<close>

theorem backward_jump_costs_one:
  "in_exon 1 (200 + (- 1)) [0, 200] [100, 300] = Inr False
   \<and> move_step 2 [0, 200] [100, 300] (- 1) (1, 200, 3) = Inr (0, 99, 2)"
  by (simp add: move_step_def in_exon_def py_get_def)

subsection \<open>The end of an exon is inside the exon\<close>

text \<open>
  Claim C9. \<open>in_exon\<close> compares with \<open><=\<close> on both sides, so the end coordinate of an
  exon lies in that exon. The walk \<open>move_pos\<close> from the end of an exon by \<open>-3\<close>, which is
  the trim of the strand \<open>"+"\<close> for a \<open>cdsEnd\<close> at the end of an exon, therefore never
  raises the error of a position that is in no exon.
\<close>

theorem exon_end_in_exon:
  assumes "length exonStart = length exonEnd" and "i < length exonStart"
    and "exonStart ! i \<le> exonEnd ! i"
  shows "in_exon (int i) (exonEnd ! i) exonStart exonEnd = Inr True
         \<and> (\<forall>p. move_pos txStart txEnd (int (length exonStart)) exonStart exonEnd
                   (exonEnd ! i) (- 3) \<noteq> Inl (ValueError_cant_find p))"
proof -
  let ?n = "length exonStart"
  let ?pos = "exonEnd ! i"
  from assms have a: "in_exon (int i) ?pos exonStart exonEnd = Inr True"
    by (simp add: in_exon_nth)
  from assms have "\<exists>j \<in> set [0..<?n]. find_exon ?pos exonStart exonEnd [0..<?n] = Inr (Some (int j))
        \<and> exonStart ! j \<le> ?pos \<and> ?pos \<le> exonEnd ! j"
    by (intro find_exon_hit [where i = i]) auto
  then obtain j where j: "find_exon ?pos exonStart exonEnd [0..<?n] = Inr (Some (int j))"
    by blast
  obtain w where w: "move_loop (int ?n) exonStart exonEnd (- 1) (int j, ?pos, 3) = Inr w"
    using move_loop_total [OF assms(1) refl] by blast
  have "move_pos txStart txEnd (int ?n) exonStart exonEnd ?pos (- 3) \<noteq> Inl (ValueError_cant_find p)"
    for p
    unfolding move_pos_def using j w
    by (cases w) (simp add: Let_def)
  with a show ?thesis by blast
qed

text \<open>The walk from the end \<open>100\<close> of the first exon: it stays in that exon.\<close>

theorem exon_end_in_exon_witness:
  "in_exon (int 0) ([100, 300] ! 0) [0, 200] [100, 300] = Inr True
   \<and> move_pos 0 300 (int (length [0 :: int, 200])) [0, 200] [100, 300] ([100, 300] ! 0) (- 3)
       = Inr 97"
  using exon_end_in_exon [of "[0, 200]" "[100, 300]" 0 0 300]
  by (simp add: move_pos_def in_exon_def py_get_def upt_rec move_loop.simps move_step_def)

subsection \<open>What the writers append\<close>

text \<open>
  A writer that succeeds on one file succeeds on every file, and appends the same lines.
\<close>

lemma build_gtf_line_ok:
  "build_gtf_line source name chrom strand geneName type_g start end exon frame exonCount file
     = Inr file' \<Longrightarrow> start \<le> end"
  by (simp add: build_gtf_line_def split: if_splits)

lemma build_gtf_line_eq:
  "start \<le> end \<Longrightarrow>
   build_gtf_line source name chrom strand geneName type_g start end exon frame exonCount f
     = Inr (f @ [feature_line source name chrom strand geneName type_g start end exon frame
                   exonCount])"
  by (simp add: build_gtf_line_def)

lemma feature_line_cols:
  "feature (feature_line source name chrom strand geneName type_g start end exon frame exonCount)
     = type_g"
  "start_col (feature_line source name chrom strand geneName type_g start end exon frame
     exonCount) = start + 1"
  "end_col (feature_line source name chrom strand geneName type_g start end exon frame exonCount)
     = end"
  "phase_col (feature_line source name chrom strand geneName type_g start end exon frame
     exonCount) = frame_to_phase frame"
  by (simp_all add: feature_line_def)

lemma write_features_appends:
  assumes "write_features i source name chrom strand geneName firstUtrEnd cdsStart cdsEnd
             lastUtrStart frame exonStart exonEnd exonCount file = Inr file'"
  obtains s e ls where "py_get exonStart i = Inr s" and "py_get exonEnd i = Inr e"
    and "\<And>f. write_features i source name chrom strand geneName firstUtrEnd cdsStart cdsEnd
             lastUtrStart frame exonStart exonEnd exonCount f = Inr (f @ ls)"
    and "\<forall>l \<in> set ls. segment_line strand firstUtrEnd cdsStart cdsEnd lastUtrStart frame s e l"
proof -
  from assms obtain s e file1 file2 where s: "py_get exonStart i = Inr s"
    and e: "py_get exonEnd i = Inr e"
    and a: "(if s < firstUtrEnd
          then build_gtf_line source name chrom strand geneName
                 (if strand = ''+'' then ''5UTR'' else ''3UTR'')
                 s (min e firstUtrEnd) i (- 1) exonCount file
          else Inr file) = Inr file1"
    and b: "(if cdsStart < e \<and> cdsEnd > s
          then build_gtf_line source name chrom strand geneName ''CDS''
                 (max s cdsStart) (min e cdsEnd) i frame exonCount file1
          else Inr file1) = Inr file2"
    and c: "(if e > lastUtrStart
          then build_gtf_line source name chrom strand geneName
                 (if strand = ''+'' then ''3UTR'' else ''5UTR'')
                 (max lastUtrStart s) e i (- 1) exonCount file2
          else Inr file2) = Inr file'"
    by (rule write_features_Inr)
  define l1 where "l1 = feature_line source name chrom strand geneName
                 (if strand = ''+'' then ''5UTR'' else ''3UTR'')
                 s (min e firstUtrEnd) i (- 1) exonCount"
  define l2 where "l2 = feature_line source name chrom strand geneName ''CDS''
                 (max s cdsStart) (min e cdsEnd) i frame exonCount"
  define l3 where "l3 = feature_line source name chrom strand geneName
                 (if strand = ''+'' then ''3UTR'' else ''5UTR'')
                 (max lastUtrStart s) e i (- 1) exonCount"
  define ls where "ls = (if s < firstUtrEnd then [l1] else [])
      @ (if cdsStart < e \<and> cdsEnd > s then [l2] else [])
      @ (if e > lastUtrStart then [l3] else [])"
  have 1: "s \<le> min e firstUtrEnd" if "s < firstUtrEnd"
    using a that by (auto dest: build_gtf_line_ok)
  have 2: "max s cdsStart \<le> min e cdsEnd" if "cdsStart < e \<and> cdsEnd > s"
    using b that by (auto dest: build_gtf_line_ok)
  have 3: "max lastUtrStart s \<le> e" if "e > lastUtrStart"
    using c that by (auto dest: build_gtf_line_ok)
  have s1: "(if s < firstUtrEnd
          then build_gtf_line source name chrom strand geneName
                 (if strand = ''+'' then ''5UTR'' else ''3UTR'')
                 s (min e firstUtrEnd) i (- 1) exonCount f
          else Inr f) = Inr (f @ (if s < firstUtrEnd then [l1] else []))" for f
    using 1 by (simp add: build_gtf_line_eq l1_def)
  have s2: "(if cdsStart < e \<and> cdsEnd > s
          then build_gtf_line source name chrom strand geneName ''CDS''
                 (max s cdsStart) (min e cdsEnd) i frame exonCount f
          else Inr f) = Inr (f @ (if cdsStart < e \<and> cdsEnd > s then [l2] else []))" for f
    using 2 by (simp add: build_gtf_line_eq l2_def)
  have s3: "(if e > lastUtrStart
          then build_gtf_line source name chrom strand geneName
                 (if strand = ''+'' then ''3UTR'' else ''5UTR'')
                 (max lastUtrStart s) e i (- 1) exonCount f
          else Inr f) = Inr (f @ (if e > lastUtrStart then [l3] else []))" for f
    using 3 by (simp add: build_gtf_line_eq l3_def)
  have w: "write_features i source name chrom strand geneName firstUtrEnd cdsStart cdsEnd
             lastUtrStart frame exonStart exonEnd exonCount f = Inr (f @ ls)" for f
    unfolding write_features_def ls_def by (simp only: s e s1 s2 s3 sum.case append_assoc)
  have p: "\<forall>l \<in> set ls. segment_line strand firstUtrEnd cdsStart cdsEnd lastUtrStart frame s e l"
    unfolding ls_def segment_line_def l1_def l2_def l3_def
    by (auto simp: feature_line_cols)
  from s e w p show thesis by (rule that)
qed

lemma write_codon_appends:
  assumes "write_codon source name chrom strand geneName type_g codon exonCount file = Inr file'"
  obtains ls where
    "\<And>f. write_codon source name chrom strand geneName type_g codon exonCount f = Inr (f @ ls)"
    and "\<forall>l \<in> set ls. feature l = type_g"
proof -
  from assms obtain file1 where
    a: "build_gtf_line source name chrom strand geneName type_g
       (cod0 codon) (cod1 codon) (cod4 codon) 0 exonCount file = Inr file1"
    and b: "(if cod2 codon < cod3 codon
          then build_gtf_line source name chrom strand geneName type_g
                 (cod2 codon) (cod1 codon) (cod5 codon) (cod1 codon - cod0 codon) exonCount file1
          else Inr file1) = Inr file'"
    by (rule write_codon_Inr)
  define l1 where "l1 = feature_line source name chrom strand geneName type_g
       (cod0 codon) (cod1 codon) (cod4 codon) 0 exonCount"
  define l2 where "l2 = feature_line source name chrom strand geneName type_g
                 (cod2 codon) (cod1 codon) (cod5 codon) (cod1 codon - cod0 codon) exonCount"
  define ls where "ls = l1 # (if cod2 codon < cod3 codon then [l2] else [])"
  from a have 1: "cod0 codon \<le> cod1 codon" by (rule build_gtf_line_ok)
  have 2: "cod2 codon \<le> cod1 codon" if "cod2 codon < cod3 codon"
    using b that by (auto dest: build_gtf_line_ok)
  have w: "write_codon source name chrom strand geneName type_g codon exonCount f = Inr (f @ ls)"
    for f
    unfolding write_codon_def ls_def l1_def l2_def using 1 2
    by (simp add: build_gtf_line_eq)
  have p: "\<forall>l \<in> set ls. feature l = type_g"
    unfolding ls_def l1_def l2_def by (simp add: feature_line_cols)
  from w p show thesis by (rule that)
qed

lemma emit_exons_appends:
  assumes "emit_exons source name chrom strand geneName first_utr_end cdsStart cdsEnd
             last_utr_start frames exonStart exonEnd exonCount xs fl = Inr fl'"
  shows "\<exists>ls. (\<forall>f. emit_exons source name chrom strand geneName first_utr_end cdsStart cdsEnd
                     last_utr_start frames exonStart exonEnd exonCount xs f = Inr (f @ ls))
            \<and> (\<forall>l \<in> set ls. feature l = ''exon''
                 \<or> (\<exists>x \<in> set xs. \<exists>s e fr. py_get exonStart (int x) = Inr s
                       \<and> py_get exonEnd (int x) = Inr e \<and> py_get frames (int x) = Inr fr
                       \<and> segment_line strand first_utr_end cdsStart cdsEnd last_utr_start
                            fr s e l))"
  using assms
proof (induction xs arbitrary: fl)
  case Nil
  then show ?case by simp
next
  case (Cons x xs)
  let ?rest = "emit_exons source name chrom strand geneName first_utr_end cdsStart cdsEnd
                 last_utr_start frames exonStart exonEnd exonCount xs"
  from Cons.prems obtain s e file1 where s: "py_get exonStart (int x) = Inr s"
    and e: "py_get exonEnd (int x) = Inr e"
    and b: "build_gtf_line source name chrom strand geneName ''exon'' s e (int x) (- 1)
              exonCount fl = Inr file1"
    by (auto split: sum.splits)
  define l0 where "l0 = feature_line source name chrom strand geneName ''exon'' s e (int x) (- 1)
              exonCount"
  from b have se: "s \<le> e" by (rule build_gtf_line_ok)
  then have b': "build_gtf_line source name chrom strand geneName ''exon'' s e (int x) (- 1)
              exonCount f = Inr (f @ [l0])" for f
    unfolding l0_def by (rule build_gtf_line_eq)
  have f0: "feature l0 = ''exon''" by (simp add: l0_def feature_line_cols)
  show ?case
  proof (cases "cdsStart < cdsEnd")
    case True
    with Cons.prems s e b obtain fr file2 where fr: "py_get frames (int x) = Inr fr"
      and w: "write_features (int x) source name chrom strand geneName first_utr_end
                cdsStart cdsEnd last_utr_start fr exonStart exonEnd exonCount file1 = Inr file2"
      and r: "?rest file2 = Inr fl'"
      by (auto split: sum.splits)
    from w obtain s' e' ls1 where s': "py_get exonStart (int x) = Inr s'"
      and e': "py_get exonEnd (int x) = Inr e'"
      and w': "\<And>f. write_features (int x) source name chrom strand geneName first_utr_end
                cdsStart cdsEnd last_utr_start fr exonStart exonEnd exonCount f = Inr (f @ ls1)"
      and p1: "\<forall>l \<in> set ls1. segment_line strand first_utr_end cdsStart cdsEnd last_utr_start
                 fr s' e' l"
      by (rule write_features_appends) blast
    from s s' e e' have eq: "s' = s" "e' = e" by simp_all
    from Cons.IH [OF r] obtain ls2 where r': "\<forall>f. ?rest f = Inr (f @ ls2)"
      and p2: "\<forall>l \<in> set ls2. feature l = ''exon''
                 \<or> (\<exists>x \<in> set xs. \<exists>s e fr. py_get exonStart (int x) = Inr s
                       \<and> py_get exonEnd (int x) = Inr e \<and> py_get frames (int x) = Inr fr
                       \<and> segment_line strand first_utr_end cdsStart cdsEnd last_utr_start
                            fr s e l)"
      by blast
    have "emit_exons source name chrom strand geneName first_utr_end cdsStart cdsEnd
            last_utr_start frames exonStart exonEnd exonCount (x # xs) f
          = Inr (f @ (l0 # ls1 @ ls2))" for f
      using True r' by (simp add: s e fr b' w')
    moreover have "\<forall>l \<in> set (l0 # ls1 @ ls2). feature l = ''exon''
                 \<or> (\<exists>x \<in> set (x # xs). \<exists>s e fr. py_get exonStart (int x) = Inr s
                       \<and> py_get exonEnd (int x) = Inr e \<and> py_get frames (int x) = Inr fr
                       \<and> segment_line strand first_utr_end cdsStart cdsEnd last_utr_start
                            fr s e l)"
      using f0 p1 p2 s e fr eq by auto
    ultimately show ?thesis by blast
  next
    case False
    with Cons.prems s e b have r: "?rest file1 = Inr fl'"
      by (auto split: sum.splits)
    from Cons.IH [OF r] obtain ls2 where r': "\<forall>f. ?rest f = Inr (f @ ls2)"
      and p2: "\<forall>l \<in> set ls2. feature l = ''exon''
                 \<or> (\<exists>x \<in> set xs. \<exists>s e fr. py_get exonStart (int x) = Inr s
                       \<and> py_get exonEnd (int x) = Inr e \<and> py_get frames (int x) = Inr fr
                       \<and> segment_line strand first_utr_end cdsStart cdsEnd last_utr_start
                            fr s e l)"
      by blast
    have "emit_exons source name chrom strand geneName first_utr_end cdsStart cdsEnd
            last_utr_start frames exonStart exonEnd exonCount (x # xs) f
          = Inr (f @ (l0 # ls2))" for f
      using False r' by (simp add: s e b')
    moreover have "\<forall>l \<in> set (l0 # ls2). feature l = ''exon''
                 \<or> (\<exists>x \<in> set (x # xs). \<exists>s e fr. py_get exonStart (int x) = Inr s
                       \<and> py_get exonEnd (int x) = Inr e \<and> py_get frames (int x) = Inr fr
                       \<and> segment_line strand first_utr_end cdsStart cdsEnd last_utr_start
                            fr s e l)"
      using f0 p2 by auto
    ultimately show ?thesis by blast
  qed
qed

lemma emit_codons_appends:
  assumes "emit_codons source name chrom strand geneName first_codon last_codon exonCount file
             = Inr file'"
  shows "\<exists>ls. (\<forall>f. emit_codons source name chrom strand geneName first_codon last_codon
                     exonCount f = Inr (f @ ls))
            \<and> (\<forall>l \<in> set ls. feature l = ''start_codon'' \<or> feature l = ''stop_codon'')"
proof -
  have opt: "\<exists>ls. (\<forall>f. (if c then write_codon source name chrom strand geneName t codon exonCount f
                         else Inr f) = Inr (f @ ls)) \<and> (\<forall>l \<in> set ls. feature l = t)"
    if "(if c then write_codon source name chrom strand geneName t codon exonCount g
         else Inr g) = Inr g'" for c t codon g g'
  proof (cases c)
    case True
    with that have "write_codon source name chrom strand geneName t codon exonCount g = Inr g'"
      by simp
    then obtain ls where
      "\<And>f. write_codon source name chrom strand geneName t codon exonCount f = Inr (f @ ls)"
      "\<forall>l \<in> set ls. feature l = t"
      by (rule write_codon_appends) blast
    with True show ?thesis by auto
  next
    case False
    then show ?thesis by (intro exI [of _ "[]"]) simp
  qed
  show ?thesis
  proof (cases "strand \<noteq> ''-''")
    case True
    with assms obtain file1 where
      a: "(if codon_complete first_codon
           then write_codon source name chrom strand geneName ''start_codon'' first_codon
                  exonCount file
           else Inr file) = Inr file1"
      and b: "(if codon_complete last_codon
           then write_codon source name chrom strand geneName ''stop_codon'' last_codon
                  exonCount file1
           else Inr file1) = Inr file'"
      by (auto simp: emit_codons_def split: sum.splits)
    from opt [OF a] obtain ls1 where a': "\<forall>f. (if codon_complete first_codon
           then write_codon source name chrom strand geneName ''start_codon'' first_codon
                  exonCount f
           else Inr f) = Inr (f @ ls1)" and p1: "\<forall>l \<in> set ls1. feature l = ''start_codon''"
      by blast
    from opt [OF b] obtain ls2 where b': "\<forall>f. (if codon_complete last_codon
           then write_codon source name chrom strand geneName ''stop_codon'' last_codon
                  exonCount f
           else Inr f) = Inr (f @ ls2)" and p2: "\<forall>l \<in> set ls2. feature l = ''stop_codon''"
      by blast
    have "emit_codons source name chrom strand geneName first_codon last_codon exonCount f
            = Inr (f @ (ls1 @ ls2))" for f
      unfolding emit_codons_def using True by (simp add: a' b')
    with p1 p2 show ?thesis
      by (intro exI [of _ "ls1 @ ls2"]) auto
  next
    case False
    with assms obtain file1 where
      a: "(if codon_complete last_codon
           then write_codon source name chrom strand geneName ''start_codon'' last_codon
                  exonCount file
           else Inr file) = Inr file1"
      and b: "(if codon_complete first_codon
           then write_codon source name chrom strand geneName ''stop_codon'' first_codon
                  exonCount file1
           else Inr file1) = Inr file'"
      by (auto simp: emit_codons_def split: sum.splits)
    from opt [OF a] obtain ls1 where a': "\<forall>f. (if codon_complete last_codon
           then write_codon source name chrom strand geneName ''start_codon'' last_codon
                  exonCount f
           else Inr f) = Inr (f @ ls1)" and p1: "\<forall>l \<in> set ls1. feature l = ''start_codon''"
      by blast
    from opt [OF b] obtain ls2 where b': "\<forall>f. (if codon_complete first_codon
           then write_codon source name chrom strand geneName ''stop_codon'' first_codon
                  exonCount f
           else Inr f) = Inr (f @ ls2)" and p2: "\<forall>l \<in> set ls2. feature l = ''stop_codon''"
      by blast
    have "emit_codons source name chrom strand geneName first_codon last_codon exonCount f
            = Inr (f @ (ls1 @ ls2))" for f
      unfolding emit_codons_def using False by (simp add: a' b')
    with p1 p2 show ?thesis
      by (intro exI [of _ "ls1 @ ls2"]) auto
  qed
qed

lemma emit_transcript_appends:
  assumes "emit_transcript source name chrom strand geneName txStart txEnd first_utr_end cdsStart
             cdsEnd last_utr_start frames exonStart exonEnd exonCount first_codon last_codon fl
           = Inr fl'"
  shows "\<exists>ls. (\<forall>f. emit_transcript source name chrom strand geneName txStart txEnd first_utr_end
                     cdsStart cdsEnd last_utr_start frames exonStart exonEnd exonCount
                     first_codon last_codon f = Inr (f @ ls))
            \<and> (\<forall>l \<in> set ls. feature l \<in> {''transcript'', ''exon'', ''start_codon'', ''stop_codon''}
                 \<or> (\<exists>x \<in> set [0..<nat exonCount]. \<exists>s e fr. py_get exonStart (int x) = Inr s
                       \<and> py_get exonEnd (int x) = Inr e \<and> py_get frames (int x) = Inr fr
                       \<and> segment_line strand first_utr_end cdsStart cdsEnd last_utr_start
                            fr s e l))"
proof -
  from assms obtain file1 file2 where
    a: "build_gtf_line source name chrom strand geneName ''transcript'' txStart txEnd
             (- 1) (- 1) exonCount fl = Inr file1"
    and b: "emit_exons source name chrom strand geneName first_utr_end cdsStart cdsEnd
              last_utr_start frames exonStart exonEnd exonCount [0..<nat exonCount] file1
            = Inr file2"
    and c: "emit_codons source name chrom strand geneName first_codon last_codon exonCount file2
            = Inr fl'"
    by (auto simp: emit_transcript_def split: sum.splits)
  define l0 where "l0 = feature_line source name chrom strand geneName ''transcript'' txStart
             txEnd (- 1) (- 1) exonCount"
  from a have "txStart \<le> txEnd" by (rule build_gtf_line_ok)
  then have a': "build_gtf_line source name chrom strand geneName ''transcript'' txStart txEnd
             (- 1) (- 1) exonCount f = Inr (f @ [l0])" for f
    unfolding l0_def by (rule build_gtf_line_eq)
  have f0: "feature l0 = ''transcript''" by (simp add: l0_def feature_line_cols)
  from emit_exons_appends [OF b] obtain ls1 where
    b': "\<forall>f. emit_exons source name chrom strand geneName first_utr_end cdsStart cdsEnd
              last_utr_start frames exonStart exonEnd exonCount [0..<nat exonCount] f
            = Inr (f @ ls1)"
    and p1: "\<forall>l \<in> set ls1. feature l = ''exon''
                 \<or> (\<exists>x \<in> set [0..<nat exonCount]. \<exists>s e fr. py_get exonStart (int x) = Inr s
                       \<and> py_get exonEnd (int x) = Inr e \<and> py_get frames (int x) = Inr fr
                       \<and> segment_line strand first_utr_end cdsStart cdsEnd last_utr_start
                            fr s e l)"
    by blast
  from emit_codons_appends [OF c] obtain ls2 where
    c': "\<forall>f. emit_codons source name chrom strand geneName first_codon last_codon exonCount f
            = Inr (f @ ls2)"
    and p2: "\<forall>l \<in> set ls2. feature l = ''start_codon'' \<or> feature l = ''stop_codon''"
    by blast
  have "emit_transcript source name chrom strand geneName txStart txEnd first_utr_end
          cdsStart cdsEnd last_utr_start frames exonStart exonEnd exonCount
          first_codon last_codon f = Inr (f @ (l0 # ls1 @ ls2))" for f
    unfolding emit_transcript_def by (simp add: a' b' c')
  moreover have "\<forall>l \<in> set (l0 # ls1 @ ls2).
        feature l \<in> {''transcript'', ''exon'', ''start_codon'', ''stop_codon''}
                 \<or> (\<exists>x \<in> set [0..<nat exonCount]. \<exists>s e fr. py_get exonStart (int x) = Inr s
                       \<and> py_get exonEnd (int x) = Inr e \<and> py_get frames (int x) = Inr fr
                       \<and> segment_line strand first_utr_end cdsStart cdsEnd last_utr_start
                            fr s e l)"
    using f0 p1 p2 by auto
  ultimately show ?thesis by blast
qed

lemma segment_line_not_gene:
  "segment_line strand firstUtrEnd cdsStart cdsEnd lastUtrStart frame s e l
   \<Longrightarrow> feature l \<noteq> ''gene''"
  by (auto simp: segment_line_def split: if_splits)

lemma emit_transcript_no_gene:
  assumes "emit_transcript source name chrom strand geneName txStart txEnd first_utr_end cdsStart
             cdsEnd last_utr_start frames exonStart exonEnd exonCount first_codon last_codon fl
           = Inr fl'"
  obtains ls where "\<And>f. emit_transcript source name chrom strand geneName txStart txEnd
                     first_utr_end cdsStart cdsEnd last_utr_start frames exonStart exonEnd
                     exonCount first_codon last_codon f = Inr (f @ ls)"
    and "gene_lines ls = []"
proof -
  from emit_transcript_appends [OF assms] obtain ls where
    a: "\<forall>f. emit_transcript source name chrom strand geneName txStart txEnd first_utr_end
                     cdsStart cdsEnd last_utr_start frames exonStart exonEnd exonCount
                     first_codon last_codon f = Inr (f @ ls)"
    and p: "\<forall>l \<in> set ls. feature l \<in> {''transcript'', ''exon'', ''start_codon'', ''stop_codon''}
                 \<or> (\<exists>x \<in> set [0..<nat exonCount]. \<exists>s e fr. py_get exonStart (int x) = Inr s
                       \<and> py_get exonEnd (int x) = Inr e \<and> py_get frames (int x) = Inr fr
                       \<and> segment_line strand first_utr_end cdsStart cdsEnd last_utr_start
                            fr s e l)"
    by blast
  have "feature l \<noteq> ''gene''" if "l \<in> set ls" for l
    using p that by (auto dest: segment_line_not_gene)
  then have "gene_lines ls = []"
    by (auto simp: gene_lines_def filter_empty_conv)
  with a show thesis by (intro that) auto
qed

subsection \<open>The gene registry\<close>

lemma run_Inr:
  assumes "run r isoforms st = Inr st'"
  obtains geneName exonStart exonEnd frames first_codon last_codon first_utr_end last_utr_start
    cdsStart' cdsEnd' st1 fl
  where "isoforms (f_name r) = Some geneName"
    and "exon_lists r = Inr (exonStart, exonEnd)"
    and "exon_frames (f_cdsStart r) (f_cdsEnd r) exonStart exonEnd (f_strand r) = Inr frames"
    and "find_first_codon frames (f_strand r) (f_cdsStart r) (f_cdsEnd r) exonStart exonEnd
           = Inr first_codon"
    and "find_last_codon frames (f_strand r) (f_cdsStart r) (f_cdsEnd r) exonStart exonEnd
           = Inr last_codon"
    and "trim_cds (f_strand r) (f_txStart r) (f_txEnd r) (f_exonCount r) exonStart exonEnd
           (f_cdsStart r) (f_cdsEnd r) first_codon last_codon
           = Inr (first_utr_end, last_utr_start, cdsStart', cdsEnd')"
    and "emit_gene ''test'' geneName (f_chrom r) (f_strand r) (f_txStart r) (f_txEnd r) st
           = Inr st1"
    and "emit_transcript ''test'' (f_name r) (f_chrom r) (f_strand r) geneName (f_txStart r)
           (f_txEnd r) first_utr_end cdsStart' cdsEnd' last_utr_start frames exonStart exonEnd
           (f_exonCount r) first_codon last_codon (gtf st1) = Inr fl"
    and "st' = st1\<lparr>gtf := fl\<rparr>"
  using assms unfolding run_def Let_def
  by (auto split: option.splits sum.splits prod.splits)

lemma run_emit:
  assumes "isoforms (f_name r) = Some geneName"
    and "exon_lists r = Inr (exonStart, exonEnd)"
    and "exon_frames (f_cdsStart r) (f_cdsEnd r) exonStart exonEnd (f_strand r) = Inr frames"
    and "find_first_codon frames (f_strand r) (f_cdsStart r) (f_cdsEnd r) exonStart exonEnd
           = Inr first_codon"
    and "find_last_codon frames (f_strand r) (f_cdsStart r) (f_cdsEnd r) exonStart exonEnd
           = Inr last_codon"
    and "trim_cds (f_strand r) (f_txStart r) (f_txEnd r) (f_exonCount r) exonStart exonEnd
           (f_cdsStart r) (f_cdsEnd r) first_codon last_codon
           = Inr (first_utr_end, last_utr_start, cdsStart', cdsEnd')"
  shows "run r isoforms st =
    (case emit_gene ''test'' geneName (f_chrom r) (f_strand r) (f_txStart r) (f_txEnd r) st of
       Inl raised \<Rightarrow> Inl raised
     | Inr st1 \<Rightarrow>
        (case emit_transcript ''test'' (f_name r) (f_chrom r) (f_strand r) geneName (f_txStart r)
           (f_txEnd r) first_utr_end cdsStart' cdsEnd' last_utr_start frames exonStart exonEnd
           (f_exonCount r) first_codon last_codon (gtf st1) of
          Inl (err, fl) \<Rightarrow> Inl (err, st1\<lparr>gtf := fl\<rparr>)
        | Inr fl \<Rightarrow> Inr (st1\<lparr>gtf := fl\<rparr>)))"
  unfolding run_def Let_def by (simp add: assms)

lemma emit_gene_Inr:
  assumes "emit_gene source g chrom strand txStart txEnd st = Inr st1"
  shows "(g \<in> dom (GENES st) \<and> st1 = st)
       \<or> (g \<notin> dom (GENES st) \<and> txStart \<le> txEnd
           \<and> st1 = st\<lparr>gtf := gtf st @ [gene_line source g chrom strand ''gene'' txStart txEnd],
                      GENES := (GENES st)(g \<mapsto> True)\<rparr>)"
  using assms
  by (auto simp: emit_gene_def build_gene_line_def split: if_splits)

lemma emit_gene_Inl:
  assumes "emit_gene source g chrom strand txStart txEnd st = Inl (e, st1)"
  shows "GENES st1 = GENES st \<and> gtf st1 = gtf st"
  using assms
  by (auto simp: emit_gene_def build_gene_line_def split: if_splits)

lemma gene_lines_append: "gene_lines (xs @ ys) = gene_lines xs @ gene_lines ys"
  by (simp add: gene_lines_def)

lemma gene_lines_gene_line:
  "gene_lines [gene_line source g chrom strand ''gene'' txStart txEnd]
     = [gene_line source g chrom strand ''gene'' txStart txEnd]"
  by (simp add: gene_lines_def gene_line_def)

lemma run_gene_line:
  assumes "run r isoforms st = Inr st'"
  shows "\<exists>g. isoforms (f_name r) = Some g
           \<and> GENES st' = (if g \<in> dom (GENES st) then GENES st else (GENES st)(g \<mapsto> True))
           \<and> gene_lines (gtf st') = gene_lines (gtf st) @
               (if g \<in> dom (GENES st) then []
                else [gene_line ''test'' g (f_chrom r) (f_strand r) ''gene'' (f_txStart r)
                        (f_txEnd r)])"
proof -
  from assms obtain geneName exonStart exonEnd frames first_codon last_codon first_utr_end
    last_utr_start cdsStart' cdsEnd' st1 fl
  where g: "isoforms (f_name r) = Some geneName"
    and eg: "emit_gene ''test'' geneName (f_chrom r) (f_strand r) (f_txStart r) (f_txEnd r) st
           = Inr st1"
    and et: "emit_transcript ''test'' (f_name r) (f_chrom r) (f_strand r) geneName (f_txStart r)
           (f_txEnd r) first_utr_end cdsStart' cdsEnd' last_utr_start frames exonStart exonEnd
           (f_exonCount r) first_codon last_codon (gtf st1) = Inr fl"
    and st': "st' = st1\<lparr>gtf := fl\<rparr>"
    by (rule run_Inr)
  from et obtain ls where
    all: "\<And>f. emit_transcript ''test'' (f_name r) (f_chrom r) (f_strand r) geneName (f_txStart r)
           (f_txEnd r) first_utr_end cdsStart' cdsEnd' last_utr_start frames exonStart exonEnd
           (f_exonCount r) first_codon last_codon f = Inr (f @ ls)"
    and ng: "gene_lines ls = []"
    by (rule emit_transcript_no_gene) blast
  from all [of "gtf st1"] et have ls: "fl = gtf st1 @ ls" by simp
  from emit_gene_Inr [OF eg] show ?thesis
    using g st' ls ng by (auto simp: gene_lines_append gene_lines_gene_line)
qed

lemma run_twice:
  assumes "run r isoforms st = Inr st1"
  shows "\<exists>st2. run r isoforms st1 = Inr st2 \<and> gene_lines (gtf st2) = gene_lines (gtf st1)
           \<and> GENES st2 = GENES st1"
proof -
  from assms obtain geneName exonStart exonEnd frames first_codon last_codon first_utr_end
    last_utr_start cdsStart' cdsEnd' st0 fl
  where p: "isoforms (f_name r) = Some geneName"
      "exon_lists r = Inr (exonStart, exonEnd)"
      "exon_frames (f_cdsStart r) (f_cdsEnd r) exonStart exonEnd (f_strand r) = Inr frames"
      "find_first_codon frames (f_strand r) (f_cdsStart r) (f_cdsEnd r) exonStart exonEnd
           = Inr first_codon"
      "find_last_codon frames (f_strand r) (f_cdsStart r) (f_cdsEnd r) exonStart exonEnd
           = Inr last_codon"
      "trim_cds (f_strand r) (f_txStart r) (f_txEnd r) (f_exonCount r) exonStart exonEnd
           (f_cdsStart r) (f_cdsEnd r) first_codon last_codon
           = Inr (first_utr_end, last_utr_start, cdsStart', cdsEnd')"
    and eg: "emit_gene ''test'' geneName (f_chrom r) (f_strand r) (f_txStart r) (f_txEnd r) st
           = Inr st0"
    and et: "emit_transcript ''test'' (f_name r) (f_chrom r) (f_strand r) geneName (f_txStart r)
           (f_txEnd r) first_utr_end cdsStart' cdsEnd' last_utr_start frames exonStart exonEnd
           (f_exonCount r) first_codon last_codon (gtf st0) = Inr fl"
    and st1: "st1 = st0\<lparr>gtf := fl\<rparr>"
    by (rule run_Inr)
  from et obtain ls where
    all: "\<And>f. emit_transcript ''test'' (f_name r) (f_chrom r) (f_strand r) geneName (f_txStart r)
           (f_txEnd r) first_utr_end cdsStart' cdsEnd' last_utr_start frames exonStart exonEnd
           (f_exonCount r) first_codon last_codon f = Inr (f @ ls)"
    and ng: "gene_lines ls = []"
    by (rule emit_transcript_no_gene) blast
  from emit_gene_Inr [OF eg] st1 have reg: "geneName \<in> dom (GENES st1)" by auto
  then have eg1: "emit_gene ''test'' geneName (f_chrom r) (f_strand r) (f_txStart r) (f_txEnd r)
      st1 = Inr st1"
    by (simp add: emit_gene_def)
  have "run r isoforms st1 = Inr (st1\<lparr>gtf := gtf st1 @ ls\<rparr>)"
    by (simp add: run_emit [of isoforms r, OF p] eg1 all)
  with ng show ?thesis by (simp add: gene_lines_append)
qed

lemma run_registry_grows:
  "run r isoforms st = Inr st' \<Longrightarrow> GENES st \<subseteq>\<^sub>m GENES st'"
  by (drule run_gene_line) (auto simp: map_le_def)

lemma run_all_gene_lines:
  assumes "run_all rs isoforms st = Inr st'"
  shows "gene_lines (gtf st') = gene_lines (gtf st) @
           map (\<lambda>(g, r). gene_line ''test'' g (f_chrom r) (f_strand r) ''gene'' (f_txStart r)
                  (f_txEnd r))
               (first_bearers isoforms (dom (GENES st)) rs)
         \<and> GENES st \<subseteq>\<^sub>m GENES st'"
  using assms
proof (induction rs arbitrary: st)
  case Nil
  then show ?case by simp
next
  case (Cons r rs)
  from Cons.prems obtain st1 where 1: "run r isoforms st = Inr st1"
    and 2: "run_all rs isoforms st1 = Inr st'"
    by (auto split: sum.splits)
  from run_gene_line [OF 1] obtain g where g: "isoforms (f_name r) = Some g"
    and reg: "GENES st1 = (if g \<in> dom (GENES st) then GENES st else (GENES st)(g \<mapsto> True))"
    and gl: "gene_lines (gtf st1) = gene_lines (gtf st) @
               (if g \<in> dom (GENES st) then []
                else [gene_line ''test'' g (f_chrom r) (f_strand r) ''gene'' (f_txStart r)
                        (f_txEnd r)])"
    by blast
  from reg have d: "dom (GENES st1) = (if g \<in> dom (GENES st) then dom (GENES st)
                                       else insert g (dom (GENES st)))"
    by auto
  from reg have le: "GENES st \<subseteq>\<^sub>m GENES st1" by (auto simp: map_le_def)
  from Cons.IH [OF 2] le show ?case
    using g gl d by (auto intro: map_le_trans)
qed

lemma first_bearers_unseen:
  "(g, r) \<in> set (first_bearers isoforms seen rs) \<Longrightarrow> g \<notin> seen"
  by (induction rs arbitrary: seen) (auto split: option.splits if_splits)

lemma first_bearers_seen:
  "g \<in> seen \<Longrightarrow> filter (\<lambda>(g', r). g' = g) (first_bearers isoforms seen rs) = []"
  by (auto simp: filter_empty_conv dest: first_bearers_unseen)

lemma filter_gene_line_map:
  "filter (\<lambda>l. attributes l = [Gene_id g])
     (map (\<lambda>(g, r). gene_line source g (f_chrom r) (f_strand r) t (f_txStart r) (f_txEnd r)) xs)
   = map (\<lambda>(g, r). gene_line source g (f_chrom r) (f_strand r) t (f_txStart r) (f_txEnd r))
       (filter (\<lambda>(g', r). g' = g) xs)"
  by (induction xs) (auto simp: gene_line_def)

lemma first_bearers_count:
  "length (filter (\<lambda>(g', r). g' = g) (first_bearers isoforms seen rs))
     = (if g \<notin> seen \<and> (\<exists>r \<in> set rs. isoforms (f_name r) = Some g) then 1 else 0)"
proof (induction rs arbitrary: seen)
  case Nil
  then show ?case by simp
next
  case (Cons r rs)
  show ?case
  proof (cases "g \<in> seen")
    case True
    show ?thesis unfolding first_bearers_seen [OF True] using True by simp
  next
    case False
    show ?thesis
    proof (cases "isoforms (f_name r)")
      case None
      with False Cons.IH [of seen] show ?thesis by simp
    next
      case (Some g')
      show ?thesis
      proof (cases "g' = g")
        case True
        with False Some show ?thesis by (simp add: first_bearers_seen)
      next
        case ne: False
        with False Some Cons.IH [of seen] Cons.IH [of "insert g' seen"] show ?thesis
          by (cases "g' \<in> seen") auto
      qed
    qed
  qed
qed

lemma run_Inl_registry:
  assumes "run r isoforms st = Inl (e, st1)"
  shows "GENES st \<subseteq>\<^sub>m GENES st1"
proof (cases "isoforms (f_name r)")
  case None
  with assms show ?thesis by (simp add: run_def Let_def)
next
  case (Some g)
  let ?eg = "emit_gene ''test'' g (f_chrom r) (f_strand r) (f_txStart r) (f_txEnd r) st"
  have "st1 = st \<or> (\<exists>st0 fl. ?eg = Inr st0 \<and> st1 = st0\<lparr>gtf := fl\<rparr>) \<or> ?eg = Inl (e, st1)"
    using assms Some unfolding run_def Let_def
    by (auto split: sum.splits prod.splits)
  then show ?thesis
  proof (elim disjE exE conjE)
    assume "st1 = st"
    then show ?thesis by simp
  next
    fix st0 fl
    assume "?eg = Inr st0" "st1 = st0\<lparr>gtf := fl\<rparr>"
    with emit_gene_Inr [of "''test''" g "f_chrom r" "f_strand r" "f_txStart r" "f_txEnd r" st st0]
    show ?thesis by (auto simp: map_le_def dom_def split: if_splits)
  next
    assume "?eg = Inl (e, st1)"
    then show ?thesis by (auto dest: emit_gene_Inl)
  qed
qed

text \<open>
  Claim C6. In a run of the program that processes the records \<open>rs\<close>, the gene lines of
  the output are, in their order, the gene lines of the records that are the first to
  bear their gene name; so a gene name has exactly one gene line when a record of \<open>rs\<close>
  bears it, and none otherwise. A record that has been processed can be processed once
  more, and the second time adds no gene line. \<open>run\<close> leaves every entry of \<open>GENES\<close> as it
  is, whether it returns or raises.
\<close>

theorem gene_line_once:
  "(run_all rs isoforms initial_state = Inr st \<longrightarrow>
      gene_lines (gtf st)
        = map (\<lambda>(g, r). gene_line ''test'' g (f_chrom r) (f_strand r) ''gene'' (f_txStart r)
                 (f_txEnd r))
              (first_bearers isoforms {} rs)
      \<and> (\<forall>g. length (filter (\<lambda>l. attributes l = [Gene_id g]) (gene_lines (gtf st)))
              = (if \<exists>r \<in> set rs. isoforms (f_name r) = Some g then 1 else 0)))
   \<and> (run r isoforms st0 = Inr st1 \<longrightarrow>
        GENES st0 \<subseteq>\<^sub>m GENES st1
        \<and> (\<exists>st2. run r isoforms st1 = Inr st2 \<and> gene_lines (gtf st2) = gene_lines (gtf st1)))
   \<and> (run r isoforms st0 = Inl (e, st1) \<longrightarrow> GENES st0 \<subseteq>\<^sub>m GENES st1)"
proof -
  have a: "gene_lines (gtf st)
        = map (\<lambda>(g, r). gene_line ''test'' g (f_chrom r) (f_strand r) ''gene'' (f_txStart r)
                 (f_txEnd r))
              (first_bearers isoforms {} rs)
      \<and> (\<forall>g. length (filter (\<lambda>l. attributes l = [Gene_id g]) (gene_lines (gtf st)))
              = (if \<exists>r \<in> set rs. isoforms (f_name r) = Some g then 1 else 0))"
    if "run_all rs isoforms initial_state = Inr st"
  proof -
    from run_all_gene_lines [OF that]
    have gl: "gene_lines (gtf st)
        = map (\<lambda>(g, r). gene_line ''test'' g (f_chrom r) (f_strand r) ''gene'' (f_txStart r)
                 (f_txEnd r))
              (first_bearers isoforms {} rs)"
      by (simp add: initial_state_def gene_lines_def)
    have "length (filter (\<lambda>l. attributes l = [Gene_id g]) (gene_lines (gtf st)))
              = (if \<exists>r \<in> set rs. isoforms (f_name r) = Some g then 1 else 0)" for g
    proof -
      let ?f = "\<lambda>(g, r). gene_line ''test'' g (f_chrom r) (f_strand r) ''gene'' (f_txStart r)
                 (f_txEnd r)"
      let ?xs = "first_bearers isoforms {} rs"
      have "filter (\<lambda>l. attributes l = [Gene_id g]) (map ?f ?xs)
              = map ?f (filter (\<lambda>(g', r). g' = g) ?xs)"
        by (rule filter_gene_line_map)
      then have "length (filter (\<lambda>l. attributes l = [Gene_id g]) (gene_lines (gtf st)))
              = length (filter (\<lambda>(g', r). g' = g) ?xs)"
        unfolding gl by simp
      with first_bearers_count [of g isoforms "{}" rs] show ?thesis by simp
    qed
    with gl show ?thesis by blast
  qed
  have b: "GENES st0 \<subseteq>\<^sub>m GENES st1
        \<and> (\<exists>st2. run r isoforms st1 = Inr st2 \<and> gene_lines (gtf st2) = gene_lines (gtf st1))"
    if "run r isoforms st0 = Inr st1"
    using run_registry_grows [OF that] run_twice [OF that] by blast
  have c: "GENES st0 \<subseteq>\<^sub>m GENES st1" if "run r isoforms st0 = Inl (e, st1)"
    using that by (rule run_Inl_registry)
  from a b c show ?thesis by blast
qed

text \<open>
  The record of scenario A processed twice in one run gives eleven lines, one of them a
  gene line. With a wrong \<open>exonCount = 2\<close> the same record raises \<open>IndexError\<close> after four
  lines, and its gene stays registered.
\<close>

theorem gene_line_once_witness:
  "(case run_all [scenario_A, scenario_A] [''t1'' \<mapsto> ''g1''] initial_state of
      Inl raised \<Rightarrow> False
    | Inr st \<Rightarrow>
        gene_lines (gtf st) = [gene_line ''test'' ''g1'' ''chr1'' ''+'' ''gene'' 0 300]
        \<and> length (gtf st) = 11)
   \<and> (case run scenario_A [''t1'' \<mapsto> ''g1''] initial_state of
        Inl raised \<Rightarrow> False
      | Inr st1 \<Rightarrow> GENES st1 ''g1'' = Some True)
   \<and> (case run (scenario_A\<lparr>f_exonCount := 2\<rparr>) [''t1'' \<mapsto> ''g1''] initial_state of
        Inl (e, st1) \<Rightarrow> e = IndexError \<and> GENES st1 ''g1'' = Some True \<and> length (gtf st1) = 4
      | Inr st1 \<Rightarrow> False)"
  using gene_line_once [of "[scenario_A, scenario_A]" "[''t1'' \<mapsto> ''g1'']"
      "projr (run_all [scenario_A, scenario_A] [''t1'' \<mapsto> ''g1''] initial_state)"
      scenario_A initial_state
      "projr (run scenario_A [''t1'' \<mapsto> ''g1''] initial_state)"]
    gene_line_once [of "[]" "[''t1'' \<mapsto> ''g1'']" initial_state
      "scenario_A\<lparr>f_exonCount := 2\<rparr>" initial_state
      "snd (projl (run (scenario_A\<lparr>f_exonCount := 2\<rparr>) [''t1'' \<mapsto> ''g1''] initial_state))"
      "fst (projl (run (scenario_A\<lparr>f_exonCount := 2\<rparr>) [''t1'' \<mapsto> ''g1''] initial_state))"]
  by (simp add: scenario_A_def run_def exon_lists_def exon_frames_def exon_frames_state_def
        exon_range_def find_first_codon_def find_last_codon_def trim_cds_def move_pos_def
        move_loop.simps move_step_def in_exon_def py_get_def emit_gene_def emit_transcript_def
        emit_codons_def build_gene_line_def build_gtf_line_def feature_line_def gene_line_def
        gene_lines_def write_features_def write_codon_def codon_complete_def frame_to_phase_def
        upt_rec initial_state_def check_exon_frame_def no_codon_def Let_def)

subsection \<open>Exon lists that keep the invariants\<close>

lemma exons_wf_nth:
  assumes "exons_wf es ee"
  shows "length ee = length es"
    and "i < length es \<Longrightarrow> es ! i < ee ! i"
    and "Suc i < length es \<Longrightarrow> ee ! i \<le> es ! Suc i"
proof -
  from assms have l: "length ee = length es" and a: "list_all2 (<) es ee"
    and b: "list_all2 (\<le>) (butlast ee) (tl es)"
    unfolding exons_wf_def by blast+
  show "length ee = length es" by (rule l)
  show "i < length es \<Longrightarrow> es ! i < ee ! i"
    by (rule list_all2_nthD [OF a])
  assume i: "Suc i < length es"
  then have "i < length (butlast ee)" using l by simp
  with b have "butlast ee ! i \<le> tl es ! i" by (rule list_all2_nthD)
  moreover from i l have "butlast ee ! i = ee ! i" by (simp add: nth_butlast)
  moreover from i have "tl es ! i = es ! Suc i" by (simp add: nth_tl)
  ultimately show "ee ! i \<le> es ! Suc i" by simp
qed

lemma exons_sorted:
  assumes "exons_wf es ee" and "i < j" and "j < length es"
  shows "ee ! i \<le> es ! j"
  using assms(2,3)
proof (induction j)
  case 0
  then show ?case by simp
next
  case (Suc j)
  show ?case
  proof (cases "i = j")
    case True
    with Suc.prems exons_wf_nth(3) [OF assms(1)] show ?thesis by simp
  next
    case False
    with Suc.prems have "i < j" "j < length es" by simp_all
    with Suc.IH have "ee ! i \<le> es ! j" by simp
    also from \<open>j < length es\<close> have "es ! j < ee ! j" by (rule exons_wf_nth(2) [OF assms(1)])
    also from Suc.prems have "ee ! j \<le> es ! Suc j" by (intro exons_wf_nth(3) [OF assms(1)])
    finally show ?thesis by simp
  qed
qed

lemma exon_positionsI:
  "i < length es \<Longrightarrow> es ! i \<le> p \<Longrightarrow> p < ee ! i \<Longrightarrow> p \<in> exon_positions es ee"
  by (auto simp: exon_positions_def)

lemma exon_gap:
  assumes "exons_wf es ee" and "Suc i < length es" and "ee ! i \<le> p" and "p < es ! Suc i"
  shows "p \<notin> exon_positions es ee"
proof
  assume "p \<in> exon_positions es ee"
  then obtain j where j: "j < length es" "es ! j \<le> p" "p < ee ! j"
    by (auto simp: exon_positions_def)
  show False
  proof (cases "j \<le> i")
    case True
    have "ee ! j \<le> ee ! i"
    proof (cases "j = i")
      case False
      with True assms(2) have "ee ! j \<le> es ! i" by (intro exons_sorted [OF assms(1)]) simp_all
      also from assms(2) have "es ! i < ee ! i" by (intro exons_wf_nth(2) [OF assms(1)]) simp
      finally show ?thesis by simp
    qed simp
    with j assms(3) show False by simp
  next
    case False
    have "es ! Suc i \<le> es ! j"
    proof (cases "j = Suc i")
      case ne: False
      from assms(2) have "es ! Suc i < ee ! Suc i" by (rule exons_wf_nth(2) [OF assms(1)])
      also from ne False j have "ee ! Suc i \<le> es ! j"
        by (intro exons_sorted [OF assms(1)]) simp_all
      finally show ?thesis by simp
    qed simp
    with j assms(4) show False by simp
  qed
qed

lemma before_first_exon:
  assumes "exons_wf es ee" and "p < es ! 0"
  shows "p \<notin> exon_positions es ee"
proof
  assume "p \<in> exon_positions es ee"
  then obtain j where j: "j < length es" "es ! j \<le> p" "p < ee ! j"
    by (auto simp: exon_positions_def)
  have "es ! 0 \<le> es ! j"
  proof (cases "j = 0")
    case False
    from j have "0 < length es" by auto
    then have "es ! 0 < ee ! 0" by (rule exons_wf_nth(2) [OF assms(1)])
    also from False j have "ee ! 0 \<le> es ! j" by (intro exons_sorted [OF assms(1)]) simp_all
    finally show ?thesis by simp
  qed simp
  with j assms(2) show False by simp
qed

lemma after_last_exon:
  assumes "exons_wf es ee" and "ee ! (length es - 1) \<le> p"
  shows "p \<notin> exon_positions es ee"
proof
  assume "p \<in> exon_positions es ee"
  then obtain j where j: "j < length es" "es ! j \<le> p" "p < ee ! j"
    by (auto simp: exon_positions_def)
  have "ee ! j \<le> ee ! (length es - 1)"
  proof (cases "j = length es - 1")
    case False
    with j have lt: "j < length es - 1" "length es - 1 < length es" by simp_all
    then have "ee ! j \<le> es ! (length es - 1)" by (rule exons_sorted [OF assms(1)])
    also from lt have "es ! (length es - 1) < ee ! (length es - 1)"
      by (intro exons_wf_nth(2) [OF assms(1)])
    finally show ?thesis by simp
  qed simp
  with j assms(2) show False by simp
qed

lemma exon_bases_step_up:
  assumes "a \<le> p" and "p \<in> exon_positions es ee"
  shows "exon_bases es ee a (p + 1) = exon_bases es ee a p + 1"
proof -
  from assms have "{a..<p + 1} \<inter> exon_positions es ee
      = insert p ({a..<p} \<inter> exon_positions es ee)"
    by auto
  then show ?thesis by (simp add: exon_bases_def)
qed

lemma exon_bases_step_down:
  assumes "p \<le> b" and "p - 1 \<in> exon_positions es ee"
  shows "exon_bases es ee (p - 1) b = exon_bases es ee p b + 1"
proof -
  from assms have "{p - 1..<b} \<inter> exon_positions es ee
      = insert (p - 1) ({p..<b} \<inter> exon_positions es ee)"
    by auto
  then show ?thesis by (simp add: exon_bases_def)
qed

lemma exon_bases_gap_up:
  assumes "\<forall>p. q \<le> p \<and> p < q' \<longrightarrow> p \<notin> exon_positions es ee" and "q \<le> q'"
  shows "exon_bases es ee a q' = exon_bases es ee a q"
proof -
  from assms have "{a..<q'} \<inter> exon_positions es ee = {a..<q} \<inter> exon_positions es ee"
    by (auto simp: not_less)
  then show ?thesis by (simp add: exon_bases_def)
qed

lemma exon_bases_gap_down:
  assumes "\<forall>p. q \<le> p \<and> p < q' \<longrightarrow> p \<notin> exon_positions es ee" and "q \<le> q'"
  shows "exon_bases es ee q b = exon_bases es ee q' b"
proof -
  from assms have "{q..<b} \<inter> exon_positions es ee = {q'..<b} \<inter> exon_positions es ee"
    by auto
  then show ?thesis by (simp add: exon_bases_def)
qed

subsection \<open>The bases that the CDS counts\<close>

lemma exon_frames_loop_sum:
  assumes "\<forall>x \<in> set xs. x < length es \<and> x < length ee"
  shows "\<exists>frames'. exon_frames_loop cs ce es ee xs (frames, cds)
           = Inr (frames', cds + sum_list (map (\<lambda>x. int (nat (min (ee ! x) ce - max (es ! x) cs))) xs))"
  using assms
proof (induction xs arbitrary: frames cds)
  case Nil
  then show ?case by simp
next
  case (Cons x xs)
  then have x: "x < length es" "x < length ee" and xs: "\<forall>x \<in> set xs. x < length es \<and> x < length ee"
    by simp_all
  define d where "d = min (ee ! x) ce - max (es ! x) cs"
  have step: "exon_frames_loop cs ce es ee (x # xs) (frames, cds) =
      (if 0 < d
       then exon_frames_loop cs ce es ee xs (frames[x := cds mod 3], cds + d)
       else exon_frames_loop cs ce es ee xs (frames[x := - 1], cds))"
    unfolding d_def
    by (simp only: exon_frames_loop.simps py_get_nth [OF x(1)] py_get_nth [OF x(2)]
          sum.case prod.case check_exon_frame_def Let_def diff_gt_0_iff_gt)
  have sm: "sum_list (map (\<lambda>x. int (nat (min (ee ! x) ce - max (es ! x) cs))) (x # xs))
      = int (nat d) + sum_list (map (\<lambda>x. int (nat (min (ee ! x) ce - max (es ! x) cs))) xs)"
    unfolding d_def by (simp only: list.map sum_list.Cons)
  show ?case
  proof (cases "0 < d")
    case True
    from Cons.IH [OF xs, of "frames[x := cds mod 3]" "cds + d"] True
    show ?thesis unfolding step sm by (simp add: add.assoc)
  next
    case False
    from Cons.IH [OF xs, of "frames[x := - 1]" cds] False
    show ?thesis unfolding step sm by simp
  qed
qed

lemma exon_positions_UN:
  "{a..<b} \<inter> exon_positions es ee = (\<Union>i \<in> {..<length es}. {max (es ! i) a..<min (ee ! i) b})"
  by (auto simp: exon_positions_def)

lemma exon_bases_sum:
  assumes "exons_wf es ee"
  shows "int (exon_bases es ee a b)
           = (\<Sum>i < length es. int (nat (min (ee ! i) b - max (es ! i) a)))"
proof -
  have disj: "{max (es ! i) a..<min (ee ! i) b} \<inter> {max (es ! j) a..<min (ee ! j) b} = {}"
    if "i < length es" "j < length es" "i \<noteq> j" for i j
  proof (cases "i < j")
    case True
    with that have "ee ! i \<le> es ! j" by (intro exons_sorted [OF assms])
    then show ?thesis by auto
  next
    case False
    with that have "ee ! j \<le> es ! i" by (intro exons_sorted [OF assms]) simp_all
    then show ?thesis by auto
  qed
  have "card (\<Union>i \<in> {..<length es}. {max (es ! i) a..<min (ee ! i) b})
          = (\<Sum>i \<in> {..<length es}. card {max (es ! i) a..<min (ee ! i) b})"
    by (rule card_UN_disjoint) (use disj in auto)
  then show ?thesis
    by (simp add: exon_bases_def exon_positions_UN)
qed

lemma sum_list_upt_sum: "sum_list (map f [0..<n]) = (\<Sum>i < n. f i)"
  by (simp add: interv_sum_list_conv_sum_set_nat atLeast0LessThan)

text \<open>
  Claim C5, as the code has it. For an exon list that keeps the invariants, the count
  \<open>cds\<close> that \<open>exon_frames\<close> ends with is the number of positions of
  \<open>[cdsStart, cdsEnd)\<close> that lie in an exon: \<open>cdsEnd - cdsStart\<close> less the number of
  positions of \<open>[cdsStart, cdsEnd)\<close> that lie in no exon, the bases of the introns inside
  the CDS.
\<close>

theorem cds_count_is_exon_bases:
  assumes "exons_wf exonStart exonEnd"
  shows "(\<exists>frames. exon_frames_state cdsStart cdsEnd exonStart exonEnd strand
            = Inr (frames, int (exon_bases exonStart exonEnd cdsStart cdsEnd)))
       \<and> (cdsStart \<le> cdsEnd \<longrightarrow>
            int (exon_bases exonStart exonEnd cdsStart cdsEnd)
              = (cdsEnd - cdsStart)
                - int (card ({cdsStart..<cdsEnd} - exon_positions exonStart exonEnd)))"
proof -
  let ?n = "length exonStart"
  let ?ov = "\<lambda>x. int (nat (min (exonEnd ! x) cdsEnd - max (exonStart ! x) cdsStart))"
  have len: "length exonEnd = ?n" by (rule exons_wf_nth(1) [OF assms])
  have rng: "\<forall>x \<in> set (exon_range strand ?n). x < ?n \<and> x < length exonEnd"
    using len by (simp add: exon_range_def)
  have "sum_list (map ?ov (exon_range strand ?n)) = sum_list (map ?ov [0..<?n])"
    by (simp add: exon_range_def rev_map [symmetric] del: rev_map)
  also have "\<dots> = (\<Sum>i < ?n. ?ov i)" by (rule sum_list_upt_sum)
  also have "\<dots> = int (exon_bases exonStart exonEnd cdsStart cdsEnd)"
    by (rule exon_bases_sum [OF assms, symmetric])
  finally have s: "sum_list (map ?ov (exon_range strand ?n))
      = int (exon_bases exonStart exonEnd cdsStart cdsEnd)" .
  from exon_frames_loop_sum [OF rng, of cdsStart cdsEnd "replicate ?n 0" 0]
  have a: "\<exists>frames. exon_frames_state cdsStart cdsEnd exonStart exonEnd strand
            = Inr (frames, int (exon_bases exonStart exonEnd cdsStart cdsEnd))"
    unfolding exon_frames_state_def s by simp
  have b: "int (exon_bases exonStart exonEnd cdsStart cdsEnd)
              = (cdsEnd - cdsStart)
                - int (card ({cdsStart..<cdsEnd} - exon_positions exonStart exonEnd))"
    if "cdsStart \<le> cdsEnd"
  proof -
    have "card ({cdsStart..<cdsEnd} - exon_positions exonStart exonEnd)
            + card ({cdsStart..<cdsEnd} \<inter> exon_positions exonStart exonEnd)
          = card {cdsStart..<cdsEnd}"
      by (subst card_Un_disjoint [symmetric]) (auto simp: Un_Diff_Int)
    with that show ?thesis by (simp add: exon_bases_def)
  qed
  from a b show ?thesis by blast
qed

text \<open>
  Scenario B: the CDS \<open>[8, 201)\<close> spans 193 positions, 100 of them in the intron, and the
  count is 93.
\<close>

theorem cds_count_is_exon_bases_witness:
  "exons_wf [0, 200] [100, 300]
   \<and> exon_frames_state 8 201 [0, 200] [100, 300] ''+'' = Inr ([0, 2], 93)
   \<and> exon_bases [0, 200] [100, 300] 8 201 = 93
   \<and> card ({8..<201} - exon_positions [0, 200] [100, 300]) = 100"
proof -
  have wf: "exons_wf [0, 200] [100, 300]" by (simp add: exons_wf_def)
  have ev: "exon_frames_state 8 201 [0, 200] [100, 300] ''+'' = Inr ([0, 2], 93)"
    by (simp add: exon_frames_state_def exon_range_def upt_rec py_get_def check_exon_frame_def)
  from cds_count_is_exon_bases [OF wf, of 8 201 "''+''"] wf ev show ?thesis by auto
qed

text \<open>
  Claim C5 as it is stated fails on every CDS that spans an intron; in scenario B the
  count is 93 and \<open>cdsEnd - cdsStart\<close> is 193.
\<close>

theorem cds_count_counterexample:
  "exon_frames_state 8 201 [0, 200] [100, 300] ''+'' = Inr ([0, 2], 93) \<and> (93 :: int) \<noteq> 201 - 8"
  by (simp add: exon_frames_state_def exon_range_def upt_rec py_get_def check_exon_frame_def)

subsection \<open>The walk as a whole\<close>

lemma first_start_least:
  assumes "exons_wf es ee" and "j < length es"
  shows "es ! 0 \<le> es ! j"
proof (cases "j = 0")
  case False
  with assms(2) have "0 < length es" by auto
  then have "es ! 0 < ee ! 0" by (rule exons_wf_nth(2) [OF assms(1)])
  also from False assms(2) have "ee ! 0 \<le> es ! j" by (intro exons_sorted [OF assms(1)]) simp_all
  finally show ?thesis by simp
qed simp

lemma last_end_greatest:
  assumes "exons_wf es ee" and "j < length es"
  shows "ee ! j \<le> ee ! (length es - 1)"
proof (cases "j = length es - 1")
  case False
  with assms(2) have lt: "j < length es - 1" "length es - 1 < length es" by simp_all
  then have "ee ! j \<le> es ! (length es - 1)" by (rule exons_sorted [OF assms(1)])
  also from lt have "es ! (length es - 1) < ee ! (length es - 1)"
    by (intro exons_wf_nth(2) [OF assms(1)])
  finally show ?thesis by simp
qed simp

lemma move_loop_stop:
  "\<not> (0 \<le> exon \<and> exon < exonCount \<and> steps > 0) \<Longrightarrow>
   move_loop exonCount es ee direction (exon, pos, steps) = Inr (exon, pos, steps)"
  by (subst move_loop.simps) auto

lemma move_loop_go:
  "0 \<le> exon \<Longrightarrow> exon < exonCount \<Longrightarrow> steps > 0 \<Longrightarrow>
   move_step exonCount es ee direction (exon, pos, steps) = Inr w \<Longrightarrow>
   move_loop exonCount es ee direction (exon, pos, steps) = move_loop exonCount es ee direction w"
  by (subst move_loop.simps) simp

lemma move_loop_backward:
  assumes wf: "exons_wf es ee" and n: "exonCount = int (length es)" and d: "direction = - 1"
  shows "case w of (exon, pos, steps) \<Rightarrow>
     0 \<le> exon \<and> exon < exonCount \<and> es ! nat exon \<le> pos \<and> pos \<le> ee ! nat exon
       \<and> pos \<le> pos0 \<and> 0 \<le> steps \<longrightarrow>
     (\<exists>exon' pos' steps'. move_loop exonCount es ee direction w = Inr (exon', pos', steps')
        \<and> 0 \<le> steps' \<and> es ! 0 \<le> pos' \<and> pos' \<le> pos
        \<and> int (exon_bases es ee pos' pos0) + steps' = int (exon_bases es ee pos pos0) + steps
        \<and> (steps' > 0 \<longrightarrow> pos' = es ! 0))"
  using wf n d
proof (induction exonCount es ee direction w rule: move_loop.induct)
  case (1 exonCount es ee direction exon pos steps)
  note wf = "1.prems"(1) and n = "1.prems"(2) and d = "1.prems"(3)
  have len: "length es = length es" "length ee = length es"
    using exons_wf_nth(1) [OF wf] by simp_all
  have "\<exists>exon' pos' steps'.
          move_loop exonCount es ee direction (exon, pos, steps) = Inr (exon', pos', steps')
        \<and> 0 \<le> steps' \<and> es ! 0 \<le> pos' \<and> pos' \<le> pos
        \<and> int (exon_bases es ee pos' pos0) + steps' = int (exon_bases es ee pos pos0) + steps
        \<and> (steps' > 0 \<longrightarrow> pos' = es ! 0)"
    if inv: "0 \<le> exon" "exon < exonCount" "es ! nat exon \<le> pos" "pos \<le> ee ! nat exon"
      "pos \<le> pos0" "0 \<le> steps"
  proof (cases "steps > 0")
    case False
    with inv have "steps = 0" by simp
    moreover from inv n have "es ! 0 \<le> es ! nat exon"
      by (intro first_start_least [OF wf]) simp
    ultimately show ?thesis
      using inv by (simp add: move_loop_stop)
  next
    case True
    let ?i = "nat exon"
    from inv n have i: "?i < length es" by simp
    have ms: "move_step exonCount es ee direction (exon, pos, steps) =
       (if es ! ?i \<le> pos - 1
        then Inr (exon, pos - 1, steps - 1)
        else if exon - 1 \<ge> 0 then Inr (exon - 1, ee ! nat (exon - 1) - 1, steps - 1)
        else Inr (exon - 1, pos, steps))"
      using move_step_nth [OF len, of exon direction pos steps] inv n d by simp
    note go = move_loop_go [OF inv(1,2) True]
    consider (step) "es ! ?i \<le> pos - 1"
      | (jump) "\<not> es ! ?i \<le> pos - 1" "exon - 1 \<ge> 0"
      | (out) "\<not> es ! ?i \<le> pos - 1" "\<not> exon - 1 \<ge> 0"
      by blast
    then show ?thesis
    proof cases
      case step
      with ms have m: "move_step exonCount es ee direction (exon, pos, steps)
          = Inr (exon, pos - 1, steps - 1)" by simp
      from "1.IH" [OF _ m wf n d] inv True step
      obtain exon' pos' steps' where
        r: "move_loop exonCount es ee direction (exon, pos - 1, steps - 1)
              = Inr (exon', pos', steps')"
        and p: "0 \<le> steps'" "es ! 0 \<le> pos'" "pos' \<le> pos - 1"
          "int (exon_bases es ee pos' pos0) + steps'
             = int (exon_bases es ee (pos - 1) pos0) + (steps - 1)"
          "steps' > 0 \<longrightarrow> pos' = es ! 0"
        by auto
      from i step inv have "pos - 1 \<in> exon_positions es ee"
        by (intro exon_positionsI [of ?i]) simp_all
      with inv have "exon_bases es ee (pos - 1) pos0 = exon_bases es ee pos pos0 + 1"
        by (intro exon_bases_step_down) simp_all
      with r p show ?thesis
        unfolding go [OF m] by auto
    next
      case jump
      let ?j = "nat (exon - 1)"
      from jump inv n have j: "Suc ?j = ?i" "?j < length es" "Suc ?j < length es" by simp_all
      from jump inv have pos: "pos = es ! ?i" by simp
      from ms jump have m: "move_step exonCount es ee direction (exon, pos, steps)
          = Inr (exon - 1, ee ! ?j - 1, steps - 1)" by simp
      have lt: "es ! ?j < ee ! ?j" by (rule exons_wf_nth(2) [OF wf j(2)])
      have le: "ee ! ?j \<le> es ! ?i" using exons_wf_nth(3) [OF wf j(3)] j(1) by simp
      from "1.IH" [OF _ m wf n d] inv True jump lt le pos
      obtain exon' pos' steps' where
        r: "move_loop exonCount es ee direction (exon - 1, ee ! ?j - 1, steps - 1)
              = Inr (exon', pos', steps')"
        and p: "0 \<le> steps'" "es ! 0 \<le> pos'" "pos' \<le> ee ! ?j - 1"
          "int (exon_bases es ee pos' pos0) + steps'
             = int (exon_bases es ee (ee ! ?j - 1) pos0) + (steps - 1)"
          "steps' > 0 \<longrightarrow> pos' = es ! 0"
        by auto
      have gap: "\<forall>p. ee ! ?j \<le> p \<and> p < es ! ?i \<longrightarrow> p \<notin> exon_positions es ee"
        using exon_gap [OF wf j(3)] j(1) by simp
      have "exon_bases es ee (ee ! ?j) pos0 = exon_bases es ee (es ! ?i) pos0"
        by (rule exon_bases_gap_down [OF gap le])
      moreover from lt j have "ee ! ?j - 1 \<in> exon_positions es ee"
        by (intro exon_positionsI [of ?j]) simp_all
      with le pos inv have "exon_bases es ee (ee ! ?j - 1) pos0
          = exon_bases es ee (ee ! ?j) pos0 + 1"
        by (intro exon_bases_step_down) simp_all
      ultimately have "exon_bases es ee (ee ! ?j - 1) pos0 = exon_bases es ee pos pos0 + 1"
        using pos by simp
      with r p le pos show ?thesis
        unfolding go [OF m] by auto
    next
      case out
      with inv have e0: "exon = 0" by simp
      with out inv have pos: "pos = es ! 0" by simp
      from ms out have m: "move_step exonCount es ee direction (exon, pos, steps)
          = Inr (exon - 1, pos, steps)" by simp
      from out have "move_loop exonCount es ee direction (exon - 1, pos, steps)
          = Inr (exon - 1, pos, steps)"
        by (intro move_loop_stop) simp
      with pos inv show ?thesis
        unfolding go [OF m] by simp
    qed
  qed
  then show ?case by simp
qed

lemma move_loop_forward:
  assumes wf: "exons_wf es ee" and n: "exonCount = int (length es)" and d: "direction = 1"
  shows "case w of (exon, pos, steps) \<Rightarrow>
     0 \<le> exon \<and> exon < exonCount \<and> es ! nat exon \<le> pos \<and> pos \<le> ee ! nat exon
       \<and> pos0 \<le> pos \<and> 0 \<le> steps \<longrightarrow>
     (\<exists>exon' pos' steps'. move_loop exonCount es ee direction w = Inr (exon', pos', steps')
        \<and> 0 \<le> steps' \<and> pos \<le> pos' \<and> pos' \<le> ee ! (length es - 1)
        \<and> int (exon_bases es ee pos0 pos') + steps' = int (exon_bases es ee pos0 pos) + steps
        \<and> (steps' > 0 \<longrightarrow> pos' = ee ! (length es - 1)))"
  using wf n d
proof (induction exonCount es ee direction w rule: move_loop.induct)
  case (1 exonCount es ee direction exon pos steps)
  note wf = "1.prems"(1) and n = "1.prems"(2) and d = "1.prems"(3)
  have len: "length es = length es" "length ee = length es"
    using exons_wf_nth(1) [OF wf] by simp_all
  have "\<exists>exon' pos' steps'.
          move_loop exonCount es ee direction (exon, pos, steps) = Inr (exon', pos', steps')
        \<and> 0 \<le> steps' \<and> pos \<le> pos' \<and> pos' \<le> ee ! (length es - 1)
        \<and> int (exon_bases es ee pos0 pos') + steps' = int (exon_bases es ee pos0 pos) + steps
        \<and> (steps' > 0 \<longrightarrow> pos' = ee ! (length es - 1))"
    if inv: "0 \<le> exon" "exon < exonCount" "es ! nat exon \<le> pos" "pos \<le> ee ! nat exon"
      "pos0 \<le> pos" "0 \<le> steps"
  proof (cases "steps > 0")
    case False
    with inv have "steps = 0" by simp
    moreover from inv n have "ee ! nat exon \<le> ee ! (length es - 1)"
      by (intro last_end_greatest [OF wf]) simp
    ultimately show ?thesis
      using inv by (simp add: move_loop_stop)
  next
    case True
    let ?i = "nat exon"
    from inv n have i: "?i < length es" by simp
    have ms: "move_step exonCount es ee direction (exon, pos, steps) =
       (if pos + 1 \<le> ee ! ?i
        then Inr (exon, pos + 1, steps - 1)
        else if exon + 1 < exonCount then Inr (exon + 1, es ! nat (exon + 1), steps)
        else Inr (exon + 1, pos, steps))"
      using move_step_nth [OF len, of exon direction pos steps] inv n d by simp
    note go = move_loop_go [OF inv(1,2) True]
    consider (step) "pos + 1 \<le> ee ! ?i"
      | (jump) "\<not> pos + 1 \<le> ee ! ?i" "exon + 1 < exonCount"
      | (out) "\<not> pos + 1 \<le> ee ! ?i" "\<not> exon + 1 < exonCount"
      by blast
    then show ?thesis
    proof cases
      case step
      with ms have m: "move_step exonCount es ee direction (exon, pos, steps)
          = Inr (exon, pos + 1, steps - 1)" by simp
      from "1.IH" [OF _ m wf n d] inv True step
      obtain exon' pos' steps' where
        r: "move_loop exonCount es ee direction (exon, pos + 1, steps - 1)
              = Inr (exon', pos', steps')"
        and p: "0 \<le> steps'" "pos + 1 \<le> pos'" "pos' \<le> ee ! (length es - 1)"
          "int (exon_bases es ee pos0 pos') + steps'
             = int (exon_bases es ee pos0 (pos + 1)) + (steps - 1)"
          "steps' > 0 \<longrightarrow> pos' = ee ! (length es - 1)"
        by auto
      from i step inv have "pos \<in> exon_positions es ee"
        by (intro exon_positionsI [of ?i]) simp_all
      with inv have "exon_bases es ee pos0 (pos + 1) = exon_bases es ee pos0 pos + 1"
        by (intro exon_bases_step_up) simp_all
      with r p show ?thesis
        unfolding go [OF m] by auto
    next
      case jump
      let ?j = "nat (exon + 1)"
      from jump inv n have j: "?j = Suc ?i" "?j < length es" "Suc ?i < length es"
        by (simp_all add: nat_add_distrib)
      from jump inv have pos: "pos = ee ! ?i" by simp
      from ms jump have m: "move_step exonCount es ee direction (exon, pos, steps)
          = Inr (exon + 1, es ! ?j, steps)" by simp
      have lt: "es ! ?j < ee ! ?j" by (rule exons_wf_nth(2) [OF wf j(2)])
      have le: "ee ! ?i \<le> es ! ?j" using exons_wf_nth(3) [OF wf j(3)] j(1) by simp
      from "1.IH" [OF _ m wf n d] inv True jump lt le pos
      obtain exon' pos' steps' where
        r: "move_loop exonCount es ee direction (exon + 1, es ! ?j, steps)
              = Inr (exon', pos', steps')"
        and p: "0 \<le> steps'" "es ! ?j \<le> pos'" "pos' \<le> ee ! (length es - 1)"
          "int (exon_bases es ee pos0 pos') + steps'
             = int (exon_bases es ee pos0 (es ! ?j)) + steps"
          "steps' > 0 \<longrightarrow> pos' = ee ! (length es - 1)"
        by auto
      have gap: "\<forall>p. ee ! ?i \<le> p \<and> p < es ! ?j \<longrightarrow> p \<notin> exon_positions es ee"
        using exon_gap [OF wf j(3)] j(1) by simp
      have "exon_bases es ee pos0 (es ! ?j) = exon_bases es ee pos0 (ee ! ?i)"
        by (rule exon_bases_gap_up [OF gap le])
      with r p le pos show ?thesis
        unfolding go [OF m] by auto
    next
      case out
      with inv n have e0: "?i = length es - 1" by simp
      with out inv have pos: "pos = ee ! (length es - 1)" by simp
      from ms out have m: "move_step exonCount es ee direction (exon, pos, steps)
          = Inr (exon + 1, pos, steps)" by simp
      from out have "move_loop exonCount es ee direction (exon + 1, pos, steps)
          = Inr (exon + 1, pos, steps)"
        by (intro move_loop_stop) simp
      with pos inv show ?thesis
        unfolding go [OF m] by simp
    qed
  qed
  then show ?case by simp
qed

lemma exon_bases_empty: "exon_bases es ee a a = 0"
  by (simp add: exon_bases_def)

lemma exon_bases_mono_left: "a \<le> a' \<Longrightarrow> exon_bases es ee a' b \<le> exon_bases es ee a b"
  unfolding exon_bases_def by (intro card_mono) auto

lemma exon_bases_mono_right: "b \<le> b' \<Longrightarrow> exon_bases es ee a b \<le> exon_bases es ee a b'"
  unfolding exon_bases_def by (intro card_mono) auto

lemma move_pos_assert:
  "\<not> (txStart \<le> pos \<and> pos \<le> txEnd) \<Longrightarrow>
   move_pos txStart txEnd exonCount es ee pos dist = Inl AssertionError"
  by (simp add: move_pos_def)

lemma move_pos_cant_find:
  assumes "length ee = length es" and "exonCount = int (length es)"
    and "txStart \<le> pos" and "pos \<le> txEnd"
    and "\<not> (\<exists>i < length es. es ! i \<le> pos \<and> pos \<le> ee ! i)"
  shows "move_pos txStart txEnd exonCount es ee pos dist = Inl (ValueError_cant_find pos)"
proof -
  have "find_exon pos es ee [0..<length es] = Inr None"
    using assms(1,5) by (intro find_exon_miss) auto
  with assms(2,3,4) show ?thesis by (simp add: move_pos_def)
qed

lemma move_pos_back:
  assumes wf: "exons_wf es ee" and n: "exonCount = int (length es)"
    and tx: "txStart \<le> pos" "pos \<le> txEnd"
    and ex: "\<exists>i < length es. es ! i \<le> pos \<and> pos \<le> ee ! i"
    and dist: "dist < 0"
  shows "(int (exon_bases es ee (es ! 0) pos) < - dist \<longrightarrow>
            move_pos txStart txEnd exonCount es ee pos dist = Inl (ValueError_cant_move pos dist))
       \<and> (\<not> int (exon_bases es ee (es ! 0) pos) < - dist \<longrightarrow>
            (\<exists>p'. move_pos txStart txEnd exonCount es ee pos dist = Inr p' \<and> p' \<le> pos
                \<and> int (exon_bases es ee p' pos) = - dist))"
proof -
  have len: "length ee = length es" by (rule exons_wf_nth(1) [OF wf])
  from ex obtain i where i: "i < length es" "es ! i \<le> pos" "pos \<le> ee ! i" by blast
  have "\<exists>j \<in> set [0..<length es]. find_exon pos es ee [0..<length es] = Inr (Some (int j))
          \<and> es ! j \<le> pos \<and> pos \<le> ee ! j"
    using len i by (intro find_exon_hit [where i = i]) auto
  then obtain j where j: "j < length es" "es ! j \<le> pos" "pos \<le> ee ! j"
    and f: "find_exon pos es ee [0..<length es] = Inr (Some (int j))"
    by auto
  from move_loop_backward [OF wf n refl, where w = "(int j, pos, - dist)" and ?pos0.0 = pos]
    j n dist
  obtain exon' pos' steps' where
    r: "move_loop exonCount es ee (- 1) (int j, pos, - dist) = Inr (exon', pos', steps')"
    and p: "0 \<le> steps'" "es ! 0 \<le> pos'" "pos' \<le> pos"
      "int (exon_bases es ee pos' pos) + steps' = int (exon_bases es ee pos pos) + (- dist)"
      "steps' > 0 \<longrightarrow> pos' = es ! 0"
    by auto
  have mp: "move_pos txStart txEnd exonCount es ee pos dist
      = (if steps' > 0 then Inl (ValueError_cant_move pos dist) else Inr pos')"
    using tx dist n f r by (simp add: move_pos_def Let_def)
  show ?thesis
  proof (cases "steps' > 0")
    case True
    with p have "int (exon_bases es ee (es ! 0) pos) < - dist"
      by (simp add: exon_bases_empty)
    with mp True show ?thesis by simp
  next
    case False
    with p have s0: "steps' = 0" by simp
    with p have eq: "int (exon_bases es ee pos' pos) = - dist" by (simp add: exon_bases_empty)
    from p(2) have "exon_bases es ee pos' pos \<le> exon_bases es ee (es ! 0) pos"
      by (rule exon_bases_mono_left)
    with eq have "\<not> int (exon_bases es ee (es ! 0) pos) < - dist" by simp
    with mp s0 eq p(3) show ?thesis by simp
  qed
qed

lemma move_pos_fwd:
  assumes wf: "exons_wf es ee" and n: "exonCount = int (length es)"
    and tx: "txStart \<le> pos" "pos \<le> txEnd"
    and ex: "\<exists>i < length es. es ! i \<le> pos \<and> pos \<le> ee ! i"
    and dist: "0 \<le> dist"
  shows "(int (exon_bases es ee pos (ee ! (length es - 1))) < dist \<longrightarrow>
            move_pos txStart txEnd exonCount es ee pos dist = Inl (ValueError_cant_move pos dist))
       \<and> (\<not> int (exon_bases es ee pos (ee ! (length es - 1))) < dist \<longrightarrow>
            (\<exists>p'. move_pos txStart txEnd exonCount es ee pos dist = Inr p' \<and> pos \<le> p'
                \<and> int (exon_bases es ee pos p') = dist))"
proof -
  have len: "length ee = length es" by (rule exons_wf_nth(1) [OF wf])
  from ex obtain i where i: "i < length es" "es ! i \<le> pos" "pos \<le> ee ! i" by blast
  have "\<exists>j \<in> set [0..<length es]. find_exon pos es ee [0..<length es] = Inr (Some (int j))
          \<and> es ! j \<le> pos \<and> pos \<le> ee ! j"
    using len i by (intro find_exon_hit [where i = i]) auto
  then obtain j where j: "j < length es" "es ! j \<le> pos" "pos \<le> ee ! j"
    and f: "find_exon pos es ee [0..<length es] = Inr (Some (int j))"
    by auto
  from move_loop_forward [OF wf n refl, where w = "(int j, pos, dist)" and ?pos0.0 = pos]
    j n dist
  obtain exon' pos' steps' where
    r: "move_loop exonCount es ee 1 (int j, pos, dist) = Inr (exon', pos', steps')"
    and p: "0 \<le> steps'" "pos \<le> pos'" "pos' \<le> ee ! (length es - 1)"
      "int (exon_bases es ee pos pos') + steps' = int (exon_bases es ee pos pos) + dist"
      "steps' > 0 \<longrightarrow> pos' = ee ! (length es - 1)"
    by auto
  have mp: "move_pos txStart txEnd exonCount es ee pos dist
      = (if steps' > 0 then Inl (ValueError_cant_move pos dist) else Inr pos')"
    using tx dist n f r by (simp add: move_pos_def Let_def)
  show ?thesis
  proof (cases "steps' > 0")
    case True
    with p have "int (exon_bases es ee pos (ee ! (length es - 1))) < dist"
      by (simp add: exon_bases_empty)
    with mp True show ?thesis by simp
  next
    case False
    with p have s0: "steps' = 0" by simp
    with p have eq: "int (exon_bases es ee pos pos') = dist" by (simp add: exon_bases_empty)
    from p(3) have "exon_bases es ee pos pos' \<le> exon_bases es ee pos (ee ! (length es - 1))"
      by (rule exon_bases_mono_right)
    with eq have "\<not> int (exon_bases es ee pos (ee ! (length es - 1))) < dist" by simp
    with mp s0 eq p(2) show ?thesis by simp
  qed
qed

text \<open>
  Claim C7, as the code has it. \<open>move_pos\<close> first asserts that \<open>pos\<close> lies in
  \<open>[txStart, txEnd]\<close> and raises \<open>AssertionError\<close> when it does not. Otherwise, on an exon
  list of \<open>exonCount\<close> entries that keeps the invariants, it raises the \<open>ValueError\<close> of a
  position that cannot be found exactly when \<open>pos\<close> lies in no exon, taken closed at both
  ends; it raises the \<open>ValueError\<close> of a walk that cannot be made exactly when \<open>pos\<close> lies
  in an exon and fewer than \<open>|dist|\<close> bases of the exons lie on the side of the walk
  (before \<open>pos\<close> for a negative \<open>dist\<close>, from \<open>pos\<close> on otherwise); and in every other
  case it returns a position that has exactly \<open>|dist|\<close> bases of the exons between it and
  \<open>pos\<close>.
\<close>

theorem move_pos_outcomes:
  assumes "exons_wf exonStart exonEnd" and "exonCount = int (length exonStart)"
  shows "(\<not> (txStart \<le> pos \<and> pos \<le> txEnd) \<longrightarrow>
            move_pos txStart txEnd exonCount exonStart exonEnd pos dist = Inl AssertionError)
       \<and> (txStart \<le> pos \<and> pos \<le> txEnd
            \<and> \<not> (\<exists>i < length exonStart. exonStart ! i \<le> pos \<and> pos \<le> exonEnd ! i) \<longrightarrow>
            move_pos txStart txEnd exonCount exonStart exonEnd pos dist
              = Inl (ValueError_cant_find pos))
       \<and> (txStart \<le> pos \<and> pos \<le> txEnd
            \<and> (\<exists>i < length exonStart. exonStart ! i \<le> pos \<and> pos \<le> exonEnd ! i)
            \<and> (if dist < 0
                then int (exon_bases exonStart exonEnd (exonStart ! 0) pos) < - dist
                else int (exon_bases exonStart exonEnd pos
                            (exonEnd ! (length exonStart - 1))) < dist) \<longrightarrow>
            move_pos txStart txEnd exonCount exonStart exonEnd pos dist
              = Inl (ValueError_cant_move pos dist))
       \<and> (txStart \<le> pos \<and> pos \<le> txEnd
            \<and> (\<exists>i < length exonStart. exonStart ! i \<le> pos \<and> pos \<le> exonEnd ! i)
            \<and> \<not> (if dist < 0
                then int (exon_bases exonStart exonEnd (exonStart ! 0) pos) < - dist
                else int (exon_bases exonStart exonEnd pos
                            (exonEnd ! (length exonStart - 1))) < dist) \<longrightarrow>
            (\<exists>p'. move_pos txStart txEnd exonCount exonStart exonEnd pos dist = Inr p'
                \<and> (if dist < 0
                    then p' \<le> pos \<and> int (exon_bases exonStart exonEnd p' pos) = - dist
                    else pos \<le> p' \<and> int (exon_bases exonStart exonEnd pos p') = dist)))"
proof -
  have len: "length exonEnd = length exonStart" by (rule exons_wf_nth(1) [OF assms(1)])
  show ?thesis
  proof (cases "txStart \<le> pos \<and> pos \<le> txEnd")
    case False
    then have "move_pos txStart txEnd exonCount exonStart exonEnd pos dist = Inl AssertionError"
      by (rule move_pos_assert)
    with False show ?thesis by blast
  next
    case tx: True
    show ?thesis
    proof (cases "\<exists>i < length exonStart. exonStart ! i \<le> pos \<and> pos \<le> exonEnd ! i")
      case False
      with tx move_pos_cant_find [OF len assms(2), of txStart pos txEnd dist]
      show ?thesis by simp
    next
      case ex: True
      show ?thesis
      proof (cases "dist < 0")
        case True
        from tx have t: "txStart \<le> pos" "pos \<le> txEnd" by simp_all
        from move_pos_back [OF assms t ex True] tx ex True show ?thesis by simp
      next
        case False
        then have d: "0 \<le> dist" by simp
        from tx have t: "txStart \<le> pos" "pos \<le> txEnd" by simp_all
        from move_pos_fwd [OF assms t ex d] tx ex False show ?thesis by simp
      qed
    qed
  qed
qed

text \<open>
  The four outcomes on the exons \<open>[0, 100)\<close> and \<open>[200, 300)\<close> of a transcript
  \<open>[0, 300]\<close>: a position outside the transcript, a position in the intron, a walk of
  three bases back from position \<open>1\<close>, and the walk of three bases back from \<open>201\<close>, which
  ends at \<open>98\<close> with the bases \<open>98\<close>, \<open>99\<close> and \<open>200\<close> behind it.
\<close>

theorem move_pos_outcomes_witness:
  "exons_wf [0, 200] [100, 300]
   \<and> move_pos 0 300 2 [0, 200] [100, 300] 350 (- 3) = Inl AssertionError
   \<and> move_pos 0 300 2 [0, 200] [100, 300] 150 (- 3) = Inl (ValueError_cant_find 150)
   \<and> move_pos 0 300 2 [0, 200] [100, 300] 1 (- 3) = Inl (ValueError_cant_move 1 (- 3))
   \<and> move_pos 0 300 2 [0, 200] [100, 300] 201 (- 3) = Inr 98
   \<and> exon_bases [0, 200] [100, 300] 98 201 = 3"
proof -
  have wf: "exons_wf [0, 200] [100, 300]" by (simp add: exons_wf_def)
  have n: "(2 :: int) = int (length [0 :: int, 200])" by simp
  have ev: "move_pos 0 300 2 [0, 200] [100, 300] 350 (- 3) = Inl AssertionError"
    "move_pos 0 300 2 [0, 200] [100, 300] 150 (- 3) = Inl (ValueError_cant_find 150)"
    "move_pos 0 300 2 [0, 200] [100, 300] 1 (- 3) = Inl (ValueError_cant_move 1 (- 3))"
    "move_pos 0 300 2 [0, 200] [100, 300] 201 (- 3) = Inr 98"
    by (simp_all add: move_pos_def in_exon_def py_get_def upt_rec move_loop.simps move_step_def)
  have "exon_bases [0, 200] [100, 300] 98 201 = 3"
    using move_pos_outcomes [OF wf n, of 0 201 300 "- 3"] ev(4)
    by (auto split: if_splits)
  with wf ev show ?thesis by simp
qed

text \<open>
  Claim C7 as it is stated fails for a position outside \<open>[txStart, txEnd]\<close>: the position
  \<open>350\<close> lies in no exon and \<open>move_pos\<close> raises \<open>AssertionError\<close>, not a \<open>ValueError\<close>; the
  position \<open>15\<close> lies in the exon \<open>[0, 20]\<close> and can be moved by one base, and \<open>move_pos\<close>
  raises \<open>AssertionError\<close> since the transcript ends at \<open>10\<close>.
\<close>

theorem move_pos_counterexample:
  "move_pos 0 300 2 [0, 200] [100, 300] 350 (- 3) = Inl AssertionError
   \<and> move_pos 0 10 1 [0] [20] 15 1 = Inl AssertionError"
  by (simp add: move_pos_def)

subsection \<open>The trim of the stop codon\<close>

lemma py_get_int_Inr:
  "py_get xs (int x) = Inr v \<Longrightarrow> x < length xs \<and> v = xs ! x"
  by (auto simp: py_get_def split: if_splits)

lemma move_pos_Inr_back:
  assumes wf: "exons_wf es ee" and n: "exonCount = int (length es)" and dist: "dist < 0"
    and r: "move_pos txStart txEnd exonCount es ee pos dist = Inr p'"
  shows "p' \<le> pos \<and> int (exon_bases es ee p' pos) = - dist"
proof -
  have len: "length ee = length es" by (rule exons_wf_nth(1) [OF wf])
  from r have tx: "txStart \<le> pos" "pos \<le> txEnd"
    using move_pos_assert [of txStart pos txEnd exonCount es ee dist] by auto
  from r have ex: "\<exists>i < length es. es ! i \<le> pos \<and> pos \<le> ee ! i"
    using move_pos_cant_find [OF len n tx, of dist] by auto
  from move_pos_back [OF wf n tx ex dist] r show ?thesis by auto
qed

lemma move_pos_Inr_fwd:
  assumes wf: "exons_wf es ee" and n: "exonCount = int (length es)" and dist: "0 \<le> dist"
    and r: "move_pos txStart txEnd exonCount es ee pos dist = Inr p'"
  shows "pos \<le> p' \<and> int (exon_bases es ee pos p') = dist"
proof -
  have len: "length ee = length es" by (rule exons_wf_nth(1) [OF wf])
  from r have tx: "txStart \<le> pos" "pos \<le> txEnd"
    using move_pos_assert [of txStart pos txEnd exonCount es ee dist] by auto
  from r have ex: "\<exists>i < length es. es ! i \<le> pos \<and> pos \<le> ee ! i"
    using move_pos_cant_find [OF len n tx, of dist] by auto
  from move_pos_fwd [OF wf n tx ex dist] r show ?thesis by auto
qed

lemma trim_cds_Inr:
  assumes wf: "exons_wf es ee" and n: "exonCount = int (length es)"
    and t: "trim_cds strand txStart txEnd exonCount es ee cdsStart cdsEnd first_codon last_codon
              = Inr (first_utr_end, last_utr_start, cdsStart', cdsEnd')"
  shows "first_utr_end = cdsStart \<and> last_utr_start = cdsEnd
       \<and> (strand = ''+'' \<and> codon_complete last_codon \<longrightarrow>
            cdsStart' = cdsStart \<and> cdsEnd' \<le> cdsEnd \<and> exon_bases es ee cdsEnd' cdsEnd = 3)
       \<and> (strand = ''-'' \<and> codon_complete first_codon \<longrightarrow>
            cdsEnd' = cdsEnd \<and> cdsStart \<le> cdsStart' \<and> exon_bases es ee cdsStart cdsStart' = 3)
       \<and> (\<not> (strand = ''+'' \<and> codon_complete last_codon)
            \<and> \<not> (strand = ''-'' \<and> codon_complete first_codon) \<longrightarrow>
            cdsStart' = cdsStart \<and> cdsEnd' = cdsEnd)"
proof -
  from t have a: "first_utr_end = cdsStart" "last_utr_start = cdsEnd"
    and e: "(if strand = ''+'' \<and> codon_complete last_codon
             then move_pos txStart txEnd exonCount es ee cdsEnd (- 3)
             else Inr cdsEnd) = Inr cdsEnd'"
    and s: "(if strand = ''-'' \<and> codon_complete first_codon
             then move_pos txStart txEnd exonCount es ee cdsStart 3
             else Inr cdsStart) = Inr cdsStart'"
    by (auto simp: trim_cds_def Let_def split: sum.splits)
  have 1: "cdsStart' = cdsStart \<and> cdsEnd' \<le> cdsEnd \<and> exon_bases es ee cdsEnd' cdsEnd = 3"
    if p: "strand = ''+'' \<and> codon_complete last_codon"
  proof -
    from p e have "move_pos txStart txEnd exonCount es ee cdsEnd (- 3) = Inr cdsEnd'" by simp
    from move_pos_Inr_back [OF wf n _ this] have "cdsEnd' \<le> cdsEnd"
      "int (exon_bases es ee cdsEnd' cdsEnd) = 3" by simp_all
    moreover from p s have "cdsStart' = cdsStart" by simp
    ultimately show ?thesis by simp
  qed
  have 2: "cdsEnd' = cdsEnd \<and> cdsStart \<le> cdsStart' \<and> exon_bases es ee cdsStart cdsStart' = 3"
    if p: "strand = ''-'' \<and> codon_complete first_codon"
  proof -
    from p s have "move_pos txStart txEnd exonCount es ee cdsStart 3 = Inr cdsStart'" by simp
    from move_pos_Inr_fwd [OF wf n _ this] have "cdsStart \<le> cdsStart'"
      "int (exon_bases es ee cdsStart cdsStart') = 3" by simp_all
    moreover from p e have "cdsEnd' = cdsEnd" by simp
    ultimately show ?thesis by simp
  qed
  have 3: "cdsStart' = cdsStart \<and> cdsEnd' = cdsEnd"
    if "\<not> (strand = ''+'' \<and> codon_complete last_codon)
            \<and> \<not> (strand = ''-'' \<and> codon_complete first_codon)"
    using that e s by (auto split: if_splits)
  from a 1 2 3 show ?thesis by blast
qed

lemma segment_line_cases:
  assumes "segment_line strand firstUtrEnd cdsStart cdsEnd lastUtrStart frame s e l"
  shows "(feature l = ''CDS'' \<longrightarrow>
            start_col l = max s cdsStart + 1 \<and> end_col l = min e cdsEnd
            \<and> phase_col l = frame_to_phase frame)
       \<and> (feature l = (if strand = ''+'' then ''5UTR'' else ''3UTR'') \<longrightarrow>
            start_col l = s + 1 \<and> end_col l = min e firstUtrEnd)
       \<and> (feature l = (if strand = ''+'' then ''3UTR'' else ''5UTR'') \<longrightarrow>
            start_col l = max lastUtrStart s + 1 \<and> end_col l = e)
       \<and> feature l \<in> {''CDS'', ''5UTR'', ''3UTR''}"
  using assms by (auto simp: segment_line_def split: if_splits)

text \<open>
  Claim C4, as the code has it. Take a record that \<open>run\<close> processes, with an exon list
  that keeps the invariants, and the frames and the two codons that \<open>run\<close> computes from
  the bounds \<open>cdsStart\<close> and \<open>cdsEnd\<close> of the record. The trim gives the bounds
  \<open>cdsStart'\<close> and \<open>cdsEnd'\<close>: on the strand \<open>"+"\<close> with a complete last codon only
  \<open>cdsEnd\<close> moves, back over three bases of the exons; on the strand \<open>"-"\<close> with a
  complete first codon only \<open>cdsStart\<close> moves, forward over three bases of the exons.
  Every CDS line that is written is the part of an exon between the bounds after the
  trim, and its phase is the lookup of the frame of that exon, which comes from the
  bounds before the trim. Every UTR line is cut at a bound before the trim: the UTR
  before the CDS ends at \<open>cdsStart\<close>, and the UTR after the CDS starts at \<open>cdsEnd\<close>.
\<close>

theorem trim_narrows_cds_only:
  assumes run: "run r isoforms st = Inr st'"
    and lists: "exon_lists r = Inr (exonStart, exonEnd)"
    and wf: "exons_wf exonStart exonEnd"
    and count: "f_exonCount r = int (length exonStart)"
    and frames: "exon_frames (f_cdsStart r) (f_cdsEnd r) exonStart exonEnd (f_strand r)
                   = Inr frames"
    and first: "find_first_codon frames (f_strand r) (f_cdsStart r) (f_cdsEnd r) exonStart
                  exonEnd = Inr first_codon"
    and last: "find_last_codon frames (f_strand r) (f_cdsStart r) (f_cdsEnd r) exonStart
                 exonEnd = Inr last_codon"
  shows "\<exists>cdsStart' cdsEnd' ls.
      gtf st' = gtf st @ ls
    \<and> (f_strand r = ''+'' \<and> codon_complete last_codon \<longrightarrow>
          cdsStart' = f_cdsStart r \<and> cdsEnd' \<le> f_cdsEnd r
          \<and> exon_bases exonStart exonEnd cdsEnd' (f_cdsEnd r) = 3)
    \<and> (f_strand r = ''-'' \<and> codon_complete first_codon \<longrightarrow>
          cdsEnd' = f_cdsEnd r \<and> f_cdsStart r \<le> cdsStart'
          \<and> exon_bases exonStart exonEnd (f_cdsStart r) cdsStart' = 3)
    \<and> (\<forall>l \<in> set ls.
          (feature l = ''CDS'' \<longrightarrow>
             (\<exists>x < length exonStart.
                start_col l = max (exonStart ! x) cdsStart' + 1
                \<and> end_col l = min (exonEnd ! x) cdsEnd'
                \<and> phase_col l = frame_to_phase (frames ! x)))
        \<and> (feature l = (if f_strand r = ''+'' then ''5UTR'' else ''3UTR'') \<longrightarrow>
             (\<exists>x < length exonStart.
                start_col l = exonStart ! x + 1
                \<and> end_col l = min (exonEnd ! x) (f_cdsStart r)))
        \<and> (feature l = (if f_strand r = ''+'' then ''3UTR'' else ''5UTR'') \<longrightarrow>
             (\<exists>x < length exonStart.
                start_col l = max (f_cdsEnd r) (exonStart ! x) + 1
                \<and> end_col l = exonEnd ! x)))"
proof -
  from run obtain geneName es ee frames0 first_codon0 last_codon0 first_utr_end last_utr_start
    cdsStart' cdsEnd' st1 fl
  where l0: "exon_lists r = Inr (es, ee)"
    and f0: "exon_frames (f_cdsStart r) (f_cdsEnd r) es ee (f_strand r) = Inr frames0"
    and c0: "find_first_codon frames0 (f_strand r) (f_cdsStart r) (f_cdsEnd r) es ee
           = Inr first_codon0"
      "find_last_codon frames0 (f_strand r) (f_cdsStart r) (f_cdsEnd r) es ee
           = Inr last_codon0"
    and t0: "trim_cds (f_strand r) (f_txStart r) (f_txEnd r) (f_exonCount r) es ee
           (f_cdsStart r) (f_cdsEnd r) first_codon0 last_codon0
           = Inr (first_utr_end, last_utr_start, cdsStart', cdsEnd')"
    and eg: "emit_gene ''test'' geneName (f_chrom r) (f_strand r) (f_txStart r) (f_txEnd r) st
           = Inr st1"
    and et: "emit_transcript ''test'' (f_name r) (f_chrom r) (f_strand r) geneName (f_txStart r)
           (f_txEnd r) first_utr_end cdsStart' cdsEnd' last_utr_start frames0 es ee
           (f_exonCount r) first_codon0 last_codon0 (gtf st1) = Inr fl"
    and st': "st' = st1\<lparr>gtf := fl\<rparr>"
    by (rule run_Inr)
  from l0 lists have eq1: "es = exonStart" "ee = exonEnd" by simp_all
  from f0 frames eq1 have eq2: "frames0 = frames" by simp
  from c0 first last eq1 eq2 have eq3: "first_codon0 = first_codon" "last_codon0 = last_codon"
    by simp_all
  note t = trim_cds_Inr [OF wf count t0 [unfolded eq1 eq3]]
  from t have u: "first_utr_end = f_cdsStart r" "last_utr_start = f_cdsEnd r" by simp_all
  from emit_transcript_appends [OF et] obtain ls where
    all: "\<forall>f. emit_transcript ''test'' (f_name r) (f_chrom r) (f_strand r) geneName (f_txStart r)
           (f_txEnd r) first_utr_end cdsStart' cdsEnd' last_utr_start frames0 es ee
           (f_exonCount r) first_codon0 last_codon0 f = Inr (f @ ls)"
    and p: "\<forall>l \<in> set ls. feature l \<in> {''transcript'', ''exon'', ''start_codon'', ''stop_codon''}
                 \<or> (\<exists>x \<in> set [0..<nat (f_exonCount r)]. \<exists>s e fr. py_get es (int x) = Inr s
                       \<and> py_get ee (int x) = Inr e \<and> py_get frames0 (int x) = Inr fr
                       \<and> segment_line (f_strand r) first_utr_end cdsStart' cdsEnd'
                            last_utr_start fr s e l)"
    by blast
  from all et have fl: "fl = gtf st1 @ ls" by simp
  define gs where "gs = (if geneName \<in> dom (GENES st) then []
     else [gene_line ''test'' geneName (f_chrom r) (f_strand r) ''gene'' (f_txStart r) (f_txEnd r)])"
  from emit_gene_Inr [OF eg] have g1: "gtf st1 = gtf st @ gs"
    by (auto simp: gs_def)
  have gf: "\<forall>l \<in> set gs. feature l = ''gene''" by (simp add: gs_def gene_line_def)
  have lines: "(feature l = ''CDS'' \<longrightarrow>
             (\<exists>x < length exonStart.
                start_col l = max (exonStart ! x) cdsStart' + 1
                \<and> end_col l = min (exonEnd ! x) cdsEnd'
                \<and> phase_col l = frame_to_phase (frames ! x)))
        \<and> (feature l = (if f_strand r = ''+'' then ''5UTR'' else ''3UTR'') \<longrightarrow>
             (\<exists>x < length exonStart.
                start_col l = exonStart ! x + 1
                \<and> end_col l = min (exonEnd ! x) (f_cdsStart r)))
        \<and> (feature l = (if f_strand r = ''+'' then ''3UTR'' else ''5UTR'') \<longrightarrow>
             (\<exists>x < length exonStart.
                start_col l = max (f_cdsEnd r) (exonStart ! x) + 1
                \<and> end_col l = exonEnd ! x))"
    if l: "l \<in> set (gs @ ls)" for l
  proof (cases "feature l \<in> {''gene'', ''transcript'', ''exon'', ''start_codon'', ''stop_codon''}")
    case True
    then show ?thesis by (auto split: if_splits)
  next
    case False
    with l gf p obtain x s e fr where x: "py_get es (int x) = Inr s" "py_get ee (int x) = Inr e"
      "py_get frames0 (int x) = Inr fr"
      and sl: "segment_line (f_strand r) first_utr_end cdsStart' cdsEnd' last_utr_start fr s e l"
      by fastforce
    from x eq1 eq2 have xs: "x < length exonStart" "s = exonStart ! x" "e = exonEnd ! x"
      "fr = frames ! x"
      by (auto dest: py_get_int_Inr)
    from segment_line_cases [OF sl] xs u show ?thesis by auto
  qed
  from st' fl g1 have "gtf st' = gtf st @ (gs @ ls)" by simp
  with t lines show ?thesis by blast
qed

text \<open>
  The record \<open>scenario_A_utr\<close> is processed, and it meets every hypothesis: its last
  codon \<open>[297, 300)\<close> is complete on the strand \<open>"+"\<close>.
\<close>

theorem trim_narrows_cds_only_witness:
  "\<not> isl (run scenario_A_utr [''t1'' \<mapsto> ''g1''] initial_state)
   \<and> exon_lists scenario_A_utr = Inr ([0], [400])
   \<and> exons_wf [0] [400]
   \<and> f_exonCount scenario_A_utr = int (length [0 :: int])
   \<and> exon_frames (f_cdsStart scenario_A_utr) (f_cdsEnd scenario_A_utr) [0] [400]
        (f_strand scenario_A_utr) = Inr [0]
   \<and> find_first_codon [0] (f_strand scenario_A_utr) (f_cdsStart scenario_A_utr)
        (f_cdsEnd scenario_A_utr) [0] [400]
        = Inr \<lparr>cod0 = 0, cod1 = 3, cod2 = 0, cod3 = 0, cod4 = 0, cod5 = 0\<rparr>
   \<and> find_last_codon [0] (f_strand scenario_A_utr) (f_cdsStart scenario_A_utr)
        (f_cdsEnd scenario_A_utr) [0] [400]
        = Inr \<lparr>cod0 = 297, cod1 = 300, cod2 = 0, cod3 = 0, cod4 = 0, cod5 = 0\<rparr>
   \<and> f_strand scenario_A_utr = ''+''
   \<and> codon_complete \<lparr>cod0 = 297, cod1 = 300, cod2 = 0, cod3 = 0, cod4 = 0, cod5 = 0\<rparr>"
proof -
  have h1: "\<not> isl (run scenario_A_utr [''t1'' \<mapsto> ''g1''] initial_state)"
    by (simp add: scenario_A_utr_def scenario_A_def run_def exon_lists_def exon_frames_def
        exon_frames_state_def exon_range_def find_first_codon_def find_last_codon_def
        trim_cds_def move_pos_def move_loop.simps move_step_def in_exon_def py_get_def
        emit_gene_def emit_transcript_def emit_codons_def build_gene_line_def
        build_gtf_line_def write_features_def write_codon_def codon_complete_def upt_rec
        initial_state_def check_exon_frame_def no_codon_def Let_def)
  have h2: "exon_lists scenario_A_utr = Inr ([0], [400])"
    by (simp add: scenario_A_utr_def scenario_A_def exon_lists_def py_get_def)
  have h3: "exons_wf [0] [400]" by (simp add: exons_wf_def)
  have h4: "f_exonCount scenario_A_utr = int (length [0 :: int])"
    by (simp add: scenario_A_utr_def scenario_A_def)
  have h5: "exon_frames (f_cdsStart scenario_A_utr) (f_cdsEnd scenario_A_utr) [0] [400]
        (f_strand scenario_A_utr) = Inr [0]"
    by (simp add: scenario_A_utr_def scenario_A_def exon_frames_def exon_frames_state_def
        exon_range_def py_get_def check_exon_frame_def)
  have h6: "find_first_codon [0] (f_strand scenario_A_utr) (f_cdsStart scenario_A_utr)
        (f_cdsEnd scenario_A_utr) [0] [400]
        = Inr \<lparr>cod0 = 0, cod1 = 3, cod2 = 0, cod3 = 0, cod4 = 0, cod5 = 0\<rparr>"
    by (simp add: scenario_A_utr_def scenario_A_def find_first_codon_def py_get_def
        check_exon_frame_def no_codon_def Let_def)
  have h7: "find_last_codon [0] (f_strand scenario_A_utr) (f_cdsStart scenario_A_utr)
        (f_cdsEnd scenario_A_utr) [0] [400]
        = Inr \<lparr>cod0 = 297, cod1 = 300, cod2 = 0, cod3 = 0, cod4 = 0, cod5 = 0\<rparr>"
    by (simp add: scenario_A_utr_def scenario_A_def find_last_codon_def py_get_def
        check_exon_frame_def no_codon_def Let_def)
  have h8: "f_strand scenario_A_utr = ''+''"
    "codon_complete \<lparr>cod0 = 297, cod1 = 300, cod2 = 0, cod3 = 0, cod4 = 0, cod5 = 0\<rparr>"
    by (simp_all add: scenario_A_utr_def scenario_A_def codon_complete_def)
  from h1 obtain st' where r: "run scenario_A_utr [''t1'' \<mapsto> ''g1''] initial_state = Inr st'"
    by (cases "run scenario_A_utr [''t1'' \<mapsto> ''g1''] initial_state") auto
  from trim_narrows_cds_only [OF r h2 h3 h4 h5 h6 h7] h1 h2 h3 h4 h5 h6 h7 h8
  show ?thesis by blast
qed

text \<open>
  Claim C4 as it is stated fails for the UTR lines. On \<open>scenario_A_utr\<close> the trim takes
  \<open>cdsEnd\<close> from \<open>300\<close> to \<open>297\<close>; the CDS line ends at \<open>297\<close>, and the UTR line after it
  starts at column \<open>301\<close>, one past the \<open>cdsEnd\<close> before the trim, not at \<open>298\<close>.
\<close>

theorem utr_bound_is_before_trim:
  "(case run scenario_A_utr [''t1'' \<mapsto> ''g1''] initial_state of
      Inl raised \<Rightarrow> []
    | Inr st \<Rightarrow> map (\<lambda>l. (feature l, start_col l, end_col l)) (gtf st))
   = [(''gene'', 1, 400), (''transcript'', 1, 400), (''exon'', 1, 400), (''CDS'', 1, 297),
      (''3UTR'', 301, 400), (''start_codon'', 1, 3), (''stop_codon'', 298, 300)]
   \<and> move_pos 0 400 1 [0] [400] 300 (- 3) = Inr 297"
  by (simp add: scenario_A_utr_def scenario_A_def run_def exon_lists_def exon_frames_def
        exon_frames_state_def exon_range_def find_first_codon_def find_last_codon_def
        trim_cds_def move_pos_def move_loop.simps move_step_def in_exon_def py_get_def
        emit_gene_def emit_transcript_def emit_codons_def build_gene_line_def
        build_gtf_line_def feature_line_def gene_line_def write_features_def write_codon_def
        codon_complete_def frame_to_phase_def upt_rec initial_state_def check_exon_frame_def
        no_codon_def Let_def)

end
